theory Spec2Isabelle
  imports Complex_Main "HOL-Library.AList"
begin

section \<open>Data shared by the producer and the consumer\<close>

text \<open>
  The two batch jobs of the repository are embedded here:
  \<^item> the producer, \<^verbatim>\<open>src/data_collection_and_versioning/cronjob.py\<close>;
  \<^item> the consumer, \<^verbatim>\<open>src/models/linear_regression/train.py\<close>.

  A pandas DataFrame is a list of column labels and a list of rows; a cell is a number,
  a string or the missing value. A bucket is an association list from blob names to the
  frames their CSV content parses to (CSV encoding and decoding are taken as inverse of
  each other). Blob names, tags and run ids are byte strings.

  Every call that the source guards with \<^verbatim>\<open>try/except\<close> has its failure as a
  branch of the model, and so has the call that logs the model; whether a call fails in a
  given run is read from the run's environment record. The other calls to the stores and
  to the learner return. Printing, and parameters that are only logged, are not part of
  the state, except for the warnings that a property speaks about.
\<close>

datatype cell = Num rat | Str string | NaN

record frame =
  columns :: "string list"
  rows :: "cell list list"

type_synonym bucket = "(string \<times> frame) list"

definition empty_frame :: frame where
  \<comment> \<open>\<^verbatim>\<open>pd.DataFrame()\<close>\<close>
  "empty_frame = \<lparr>columns = [], rows = []\<rparr>"

definition is_empty :: "frame \<Rightarrow> bool" where
  \<comment> \<open>\<^verbatim>\<open>df.empty\<close>: some axis has length 0\<close>
  "is_empty f \<longleftrightarrow> rows f = [] \<or> columns f = []"

definition cell_at :: "frame \<Rightarrow> cell list \<Rightarrow> string \<Rightarrow> cell" where
  \<comment> \<open>the cell of row \<open>r\<close> under label \<open>c\<close>; missing when the frame has no such column\<close>
  "cell_at f r c = (case map_of (zip (columns f) r) c of None \<Rightarrow> NaN | Some x \<Rightarrow> x)"

fun union_columns :: "string list \<Rightarrow> string list \<Rightarrow> string list" where
  \<comment> \<open>the labels of \<open>acc\<close>, then the new ones of the second list in their order\<close>
  "union_columns acc [] = acc"
| "union_columns acc (c # cs) =
     (if c \<in> set acc then union_columns acc cs else union_columns (acc @ [c]) cs)"

fun all_columns :: "string list \<Rightarrow> string list list \<Rightarrow> string list" where
  \<comment> \<open>the union of several label lists, in order of first appearance\<close>
  "all_columns acc [] = acc"
| "all_columns acc (cs # css) = all_columns (union_columns acc cs) css"

definition reindex :: "string list \<Rightarrow> frame \<Rightarrow> cell list list" where
  "reindex cs f = map (\<lambda>r. map (cell_at f r) cs) (rows f)"

definition pd_concat :: "frame list \<Rightarrow> frame" where
  \<comment> \<open>\<^verbatim>\<open>pd.concat(fs, ignore_index=True)\<close>: the rows of the frames one after the other,
      under the union of their columns in order of first appearance, missing cells filled
      with NaN. Column labels within one frame are distinct, as \<^verbatim>\<open>read_csv\<close> makes them.\<close>
  "pd_concat fs =
     (let cs = all_columns [] (map columns fs)
      in \<lparr>columns = cs, rows = concat (map (reindex cs) fs)\<rparr>)"

definition drop_column :: "string \<Rightarrow> frame \<Rightarrow> frame" where
  \<comment> \<open>\<^verbatim>\<open>df.drop(c, axis=1)\<close> on a frame that has the column\<close>
  "drop_column c f =
     \<lparr>columns = filter (\<lambda>k. k \<noteq> c) (columns f),
      rows = map (\<lambda>r. map snd (filter (\<lambda>kv. fst kv \<noteq> c) (zip (columns f) r))) (rows f)\<rparr>"

definition column :: "string \<Rightarrow> frame \<Rightarrow> cell list" where
  \<comment> \<open>\<^verbatim>\<open>df[c].values\<close> on a frame that has the column\<close>
  "column c f = map (\<lambda>r. cell_at f r c) (rows f)"

subsection \<open>Decimal numerals and the two regular expressions\<close>

definition is_digit :: "char \<Rightarrow> bool" where
  "is_digit c \<longleftrightarrow> c \<in> set ''0123456789''"

definition digit_val :: "char \<Rightarrow> nat" where
  "digit_val c = length (takeWhile (\<lambda>d. d \<noteq> c) ''0123456789'')"

definition digit_char :: "nat \<Rightarrow> char" where
  "digit_char d = ''0123456789'' ! d"

fun str_nat :: "nat \<Rightarrow> string" where
  \<comment> \<open>\<^verbatim>\<open>f"{n}"\<close> for a non-negative integer\<close>
  "str_nat n = (if n < 10 then [digit_char n] else str_nat (n div 10) @ [digit_char (n mod 10)])"

declare str_nat.simps [simp del]

definition int_of_digits :: "string \<Rightarrow> nat" where
  \<comment> \<open>\<^verbatim>\<open>int(match.group(1))\<close> on a non-empty string of digits\<close>
  "int_of_digits ds = foldl (\<lambda>a c. 10 * a + digit_val c) 0 ds"

definition version_match_here :: "string \<Rightarrow> string option" where
  \<comment> \<open>\<^verbatim>\<open>versioned/v(\d+)/\<close> anchored at the head of the string. The digits are followed by
      a slash, so only the longest run of digits can match.\<close>
  "version_match_here s =
     (if take 11 s = ''versioned/v'' then
        (let ds = takeWhile is_digit (drop 11 s); rest = dropWhile is_digit (drop 11 s)
         in if ds \<noteq> [] \<and> take 1 rest = ''/'' then Some ds else None)
      else None)"

fun search_version :: "string \<Rightarrow> string option" where
  \<comment> \<open>\<^verbatim>\<open>re.search(r"versioned/v(\d+)/", name)\<close>: group 1 of the leftmost match\<close>
  "search_version [] = None"
| "search_version (c # cs) =
     (case version_match_here (c # cs) of Some ds \<Rightarrow> Some ds | None \<Rightarrow> search_version cs)"

fun search_v_digits :: "string \<Rightarrow> string option" where
  \<comment> \<open>\<^verbatim>\<open>re.search(r'v(\d+)', tag)\<close>: group 1 of the leftmost match\<close>
  "search_v_digits [] = None"
| "search_v_digits (c # cs) =
     (if c = CHR ''v'' \<and> takeWhile is_digit cs \<noteq> [] then Some (takeWhile is_digit cs)
      else search_v_digits cs)"

definition list_blobs :: "bucket \<Rightarrow> string \<Rightarrow> string list" where
  \<comment> \<open>\<^verbatim>\<open>bucket.list_blobs(prefix=p)\<close>: the names that start with \<open>p\<close>\<close>
  "list_blobs b p = filter (\<lambda>n. take (length p) n = p) (map fst b)"

definition blob_versions :: "string list \<Rightarrow> nat list" where
  \<comment> \<open>the loop that fills \<^verbatim>\<open>versions\<close>\<close>
  "blob_versions names = map int_of_digits (List.map_filter search_version names)"

definition max_or_zero :: "nat list \<Rightarrow> nat" where
  \<comment> \<open>\<^verbatim>\<open>max(versions) if versions else 0\<close>\<close>
  "max_or_zero vs = (case vs of [] \<Rightarrow> 0 | v # ws \<Rightarrow> fold max ws v)"

definition train_path :: "nat \<Rightarrow> string" where
  "train_path v = ''versioned/v'' @ str_nat v @ ''/train.csv''"

definition valid_path :: "nat \<Rightarrow> string" where
  "valid_path v = ''versioned/v'' @ str_nat v @ ''/valid.csv''"

section \<open>The consumer: \<^verbatim>\<open>train.py\<close>\<close>

datatype error =
    Read_failed string
  | No_training_data nat nat
  | Price_not_found
  | Key_error string
  | Log_model_failed

datatype event = Could_not_load nat | Unexpected_width nat

datatype exit = No_versioned_data | Already_trained | Raised error | Completed

record metric_values =
  train_rmse :: rat
  train_mae :: rat
  train_r2 :: rat
  rmse :: rat
  mae :: rat
  r2 :: rat
  accuracy :: rat

text \<open>
  A run of the experiment in the tracking store. The store of one experiment is the list
  of its runs, newest first.
\<close>

record 'm mlrun =
  run_id :: string
  run_name :: string
  params :: "(string \<times> string) list"
  run_metrics :: "(string \<times> rat) list"
  tags :: "(string \<times> string) list"
  model :: "'m option"

text \<open>
  The collaborators of the consumer: the regression model's constructor and its
  \<^verbatim>\<open>fit\<close>, and the metric computations of \<^verbatim>\<open>evaluate_model\<close>, which are
  floating-point computations of scikit-learn and numpy.
\<close>

record 'm learner =
  new_model :: 'm
  fit :: "'m \<Rightarrow> cell list list \<Rightarrow> cell list \<Rightarrow> 'm"
  evaluate_model :: "'m \<Rightarrow> cell list list \<Rightarrow> cell list \<Rightarrow> cell list list \<Rightarrow> cell list \<Rightarrow> metric_values"

text \<open>
  What the outside world does during one consumer run: the content of \<^verbatim>\<open>BUCKET_2\<close>,
  which calls fail, and the id the tracking store gives to a new run.
\<close>

record consumer_env =
  bucket_2 :: bucket
  list_blobs_fails :: bool
  read_fails :: "string \<Rightarrow> bool"
  tracking_read_fails :: bool
  load_model_fails :: bool
  log_model_fails :: bool
  new_run_id :: string

record 'm consumer_result =
  tracking :: "'m mlrun list"
  training_calls :: "('m option \<times> cell list list \<times> cell list) list"
  events :: "event list"
  exit_status :: exit

definition get_latest_version_from_gcs :: "consumer_env \<Rightarrow> nat" where
  "get_latest_version_from_gcs env =
     (if list_blobs_fails env then 0
      else max_or_zero (blob_versions (list_blobs (bucket_2 env) ''versioned/'')))"

definition read_csv_from_gcs :: "consumer_env \<Rightarrow> string \<Rightarrow> error + frame" where
  \<comment> \<open>raises when the blob does not exist or cannot be downloaded and parsed\<close>
  "read_csv_from_gcs env name =
     (case map_of (bucket_2 env) name of
        None \<Rightarrow> Inl (Read_failed name)
      | Some df \<Rightarrow> if read_fails env name then Inl (Read_failed name) else Inr df)"

fun load_versions ::
  "consumer_env \<Rightarrow> nat list \<Rightarrow> frame list \<Rightarrow> frame list \<Rightarrow> event list
     \<Rightarrow> frame list \<times> frame list \<times> event list" where
  \<comment> \<open>the \<^verbatim>\<open>for version in range(...)\<close> loop of \<^verbatim>\<open>load_versioned_data\<close>\<close>
  "load_versions env [] all_train_dfs all_valid_dfs evs = (all_train_dfs, all_valid_dfs, evs)"
| "load_versions env (version # rest) all_train_dfs all_valid_dfs evs =
     (case read_csv_from_gcs env (train_path version) of
        Inl e \<Rightarrow> load_versions env rest all_train_dfs all_valid_dfs (evs @ [Could_not_load version])
      | Inr train_df \<Rightarrow>
          (case read_csv_from_gcs env (valid_path version) of
             Inl e \<Rightarrow>
               load_versions env rest all_train_dfs all_valid_dfs (evs @ [Could_not_load version])
           | Inr valid_df \<Rightarrow>
               load_versions env rest (all_train_dfs @ [train_df]) (all_valid_dfs @ [valid_df]) evs))"

definition load_versioned_data ::
  "consumer_env \<Rightarrow> nat \<Rightarrow> nat \<Rightarrow> event list \<times> (error + frame \<times> frame)" where
  "load_versioned_data env start_version end_version =
     (case load_versions env [start_version ..< end_version + 1] [] [] [] of
        (all_train_dfs, all_valid_dfs, evs) \<Rightarrow>
          if all_train_dfs = [] then (evs, Inl (No_training_data start_version end_version))
          else (evs, Inr (pd_concat all_train_dfs, pd_concat all_valid_dfs)))"

definition metric_less :: "rat option \<Rightarrow> rat option \<Rightarrow> bool" where
  \<comment> \<open>the order of \<^verbatim>\<open>metrics.accuracy\<close>; a run without the metric is below every run with it\<close>
  "metric_less a b =
     (case b of None \<Rightarrow> False | Some y \<Rightarrow> (case a of None \<Rightarrow> True | Some x \<Rightarrow> x < y))"

definition run_accuracy :: "'m mlrun \<Rightarrow> rat option" where
  "run_accuracy r = map_of (run_metrics r) ''accuracy''"

fun best_of :: "'m mlrun \<Rightarrow> 'm mlrun list \<Rightarrow> 'm mlrun" where
  "best_of b [] = b"
| "best_of b (r # rs) =
     (if metric_less (run_accuracy b) (run_accuracy r) then best_of r rs else best_of b rs)"

definition search_runs :: "'m mlrun list \<Rightarrow> 'm mlrun list" where
  \<comment> \<open>\<^verbatim>\<open>mlflow.search_runs(order_by=["metrics.accuracy DESC"], max_results=1)\<close>: the run of
      highest accuracy, the newest of them when several share it\<close>
  "search_runs st = (case st of [] \<Rightarrow> [] | r # rs \<Rightarrow> [best_of r rs])"

definition load_model :: "consumer_env \<Rightarrow> 'm mlrun \<Rightarrow> 'm option" where
  \<comment> \<open>\<^verbatim>\<open>mlflow.sklearn.load_model\<close>; \<open>None\<close> is the exception, raised when the run has
      no model artifact or the store cannot be read\<close>
  "load_model env r = (if load_model_fails env then None else model r)"

definition tag_version :: "'m mlrun \<Rightarrow> nat" where
  \<comment> \<open>lines 209 to 214: the number in the run's \<^verbatim>\<open>trained_till_version\<close> tag\<close>
  "tag_version r =
     (let trained_till_version_tag =
            (case map_of (tags r) ''trained_till_version'' of None \<Rightarrow> ''v0'' | Some t \<Rightarrow> t)
      in case search_v_digits trained_till_version_tag of
           None \<Rightarrow> 0
         | Some ds \<Rightarrow> int_of_digits ds)"

definition get_best_model_and_version ::
  "consumer_env \<Rightarrow> 'm mlrun list \<Rightarrow> 'm option \<times> nat \<times> string option" where
  "get_best_model_and_version env st =
     (if tracking_read_fails env then (None, 0, None)
      else case search_runs st of
             [] \<Rightarrow> (None, 0, None)
           | best_run # _ \<Rightarrow>
               (case load_model env best_run of
                  None \<Rightarrow> (None, 0, None)
                | Some loaded_model \<Rightarrow>
                    (Some loaded_model, tag_version best_run, Some (run_id best_run))))"

definition train_model :: "'m learner \<Rightarrow> 'm option \<Rightarrow> cell list list \<Rightarrow> cell list \<Rightarrow> 'm" where
  "train_model lib model_opt X_train y_train =
     fit lib (case model_opt of None \<Rightarrow> new_model lib | Some m \<Rightarrow> m) X_train y_train"

definition metric_items :: "metric_values \<Rightarrow> (string \<times> rat) list" where
  \<comment> \<open>the \<^verbatim>\<open>metrics\<close> dictionary, in insertion order\<close>
  "metric_items m =
     [(''train_rmse'', train_rmse m), (''train_mae'', train_mae m), (''train_r2'', train_r2 m),
      (''rmse'', rmse m), (''mae'', mae m), (''r2'', r2 m), (''accuracy'', accuracy m)]"

definition run_params ::
  "nat \<Rightarrow> nat \<Rightarrow> frame \<Rightarrow> frame \<Rightarrow> string option \<Rightarrow> (string \<times> string) list" where
  "run_params start_version latest_version X_train X_valid previous_run_id =
     [(''model_type'', ''linear_regression''),
      (''trained_from_version'', str_nat start_version),
      (''trained_to_version'', str_nat latest_version),
      (''n_features'', str_nat (length (columns X_train))),
      (''n_train_samples'', str_nat (length (rows X_train))),
      (''n_valid_samples'', str_nat (length (rows X_valid)))]
     @ (case previous_run_id of
          None \<Rightarrow> []
        | Some i \<Rightarrow> if i = [] then [] else [(''previous_run_id'', i)])"

definition training_run ::
  "'m learner \<Rightarrow> consumer_env \<Rightarrow> 'm mlrun list \<Rightarrow> 'm option \<Rightarrow> string option
     \<Rightarrow> nat \<Rightarrow> nat \<Rightarrow> frame \<Rightarrow> frame \<Rightarrow> event list \<Rightarrow> 'm consumer_result" where
  \<comment> \<open>lines 378 to 441 of \<^verbatim>\<open>main\<close>: the split into features and target, and the body of
      \<^verbatim>\<open>with mlflow.start_run(...)\<close>. The tag is set on the run before the model is logged;
      an exception of \<^verbatim>\<open>log_model\<close> leaves the \<^verbatim>\<open>with\<close> block, and the run stays in the
      store as it is then.\<close>
  "training_run lib env st model_opt previous_run_id start_version latest_version
       merged_train merged_valid evs =
     (let X_train = drop_column ''price'' merged_train;
          y_train = column ''price'' merged_train;
          X_valid = drop_column ''price'' merged_valid;
          y_valid = column ''price'' merged_valid;
          trained_model = train_model lib model_opt (rows X_train) y_train;
          metrics = evaluate_model lib trained_model (rows X_train) y_train (rows X_valid) y_valid;
          run = \<lparr>run_id = new_run_id env,
                 run_name = ''train_v'' @ str_nat start_version @ ''_to_v'' @ str_nat latest_version,
                 params = run_params start_version latest_version X_train X_valid previous_run_id,
                 run_metrics = metric_items metrics,
                 tags = [(''trained_till_version'', ''v'' @ str_nat latest_version)],
                 model = None\<rparr>;
          calls = [(model_opt, rows X_train, y_train)]
      in if log_model_fails env
         then \<lparr>tracking = run # st, training_calls = calls, events = evs,
               exit_status = Raised Log_model_failed\<rparr>
         else \<lparr>tracking = run\<lparr>model := Some trained_model\<rparr> # st, training_calls = calls,
               events = evs, exit_status = Completed\<rparr>)"

definition stopped :: "'m mlrun list \<Rightarrow> event list \<Rightarrow> exit \<Rightarrow> 'm consumer_result" where
  \<comment> \<open>a run that ends before the tracking store is written and before any training call\<close>
  "stopped st evs x = \<lparr>tracking = st, training_calls = [], events = evs, exit_status = x\<rparr>"

definition consumer_main :: "'m learner \<Rightarrow> consumer_env \<Rightarrow> 'm mlrun list \<Rightarrow> 'm consumer_result" where
  \<comment> \<open>\<^verbatim>\<open>main\<close> of \<^verbatim>\<open>train.py\<close> from step 3 on, for the experiment that steps 1 and 2
      look up or create; \<open>st\<close> are its runs\<close>
  "consumer_main lib env st =
     (case get_best_model_and_version env st of
        (model_opt, trained_till_version, previous_run_id) \<Rightarrow>
          (let latest_version = get_latest_version_from_gcs env in
           if latest_version = 0 then stopped st [] No_versioned_data
           else
             (let start_version = trained_till_version + 1 in
              if start_version > latest_version then stopped st [] Already_trained
              else
                (case load_versioned_data env start_version latest_version of
                   (evs, Inl e) \<Rightarrow> stopped st evs (Raised e)
                 | (evs, Inr (merged_train, merged_valid)) \<Rightarrow>
                     (let evs' = (if length (columns merged_train) \<noteq> 53
                                  then evs @ [Unexpected_width (length (columns merged_train))]
                                  else evs)
                      in if ''price'' \<notin> set (columns merged_train)
                         then stopped st evs' (Raised Price_not_found)
                         else if ''price'' \<notin> set (columns merged_valid)
                         then stopped st evs' (Raised (Key_error ''price''))
                         else training_run lib env st model_opt previous_run_id start_version
                                latest_version merged_train merged_valid evs')))))"

definition watermark :: "consumer_env \<Rightarrow> 'm mlrun list \<Rightarrow> nat" where
  \<comment> \<open>the version up to which a consumer run takes the data as consumed\<close>
  "watermark env st = fst (snd (get_best_model_and_version env st))"

section \<open>The producer: \<^verbatim>\<open>cronjob.py\<close>\<close>

definition NUMERICAL_COLS :: "string list" where
  "NUMERICAL_COLS =
     [''bedrooms'', ''bathrooms'', ''sqft_living'', ''sqft_lot'', ''floors'',
      ''waterfront'', ''view'', ''condition'', ''sqft_above'', ''sqft_basement'',
      ''yr_built'', ''yr_renovated'']"

definition CATEGORICAL_COLS :: "string list" where
  "CATEGORICAL_COLS = [''street'', ''city'', ''statezip'', ''country'']"

definition HASH_FEATURES :: nat where
  "HASH_FEATURES = 10"

text \<open>
  The library functions the producer calls: the number parser behind
  \<^verbatim>\<open>pd.to_numeric\<close>, Python's \<^verbatim>\<open>str\<close> of a number, the row that scikit-learn's
  \<^verbatim>\<open>FeatureHasher(n_features=10, input_type="string")\<close> gives for a one-string sample,
  and the row permutation of \<^verbatim>\<open>sample(frac=1, random_state=42)\<close>.
\<close>

record transform_lib =
  parse_number :: "string \<Rightarrow> rat option"
  number_str :: "rat \<Rightarrow> string"
  feature_hasher :: "string \<Rightarrow> cell list"
  sample_frac_1 :: "cell list list \<Rightarrow> cell list list"

text \<open>
  The configuration: \<^verbatim>\<open>BATCH_SIZE\<close>, and \<open>train_size_of n\<close> for
  \<^verbatim>\<open>int(n * TRAIN_TEST_SPLIT)\<close>, a floating-point product, with a split fraction that is
  not negative.
\<close>

record config =
  BATCH_SIZE :: int
  train_size_of :: "nat \<Rightarrow> nat"

type_synonym document = "(string \<times> cell) list"

record producer_state =
  BUCKET_1 :: bucket
  BUCKET_2 :: bucket
  COLLECTION_2 :: "document list"

record producer_env =
  download_fails :: "string \<Rightarrow> bool"
  delete_fails :: "string \<Rightarrow> bool"
  upload_fails :: "string \<Rightarrow> bool"
  listing_fails :: bool
  mongo_fails :: bool

text \<open>
  How a producer run ends. \<open>Published n t v\<close> is the run that takes the versioned branch with
  the number \<open>n\<close>; \<open>t\<close> and \<open>v\<close> are what \<^verbatim>\<open>upload_csv_to_gcs\<close> returns for the train file
  and for the valid file, which \<^verbatim>\<open>main\<close> drops: a file is in the bucket only when its upload
  returned \<^verbatim>\<open>True\<close>.
\<close>

datatype producer_exit = No_new_data | Transform_failed error | Published nat bool bool | Buffered

record producer_result =
  final_state :: producer_state
  outcome :: producer_exit

definition map_column :: "string \<Rightarrow> (cell \<Rightarrow> cell) \<Rightarrow> frame \<Rightarrow> frame" where
  \<comment> \<open>\<^verbatim>\<open>df[col] = g(df[col])\<close> for a cell-wise \<open>g\<close>\<close>
  "map_column col g f =
     f\<lparr>rows := map (\<lambda>r. map (\<lambda>kv. if fst kv = col then g (snd kv) else snd kv)
                              (zip (columns f) r)) (rows f)\<rparr>"

definition to_numeric_coerce :: "transform_lib \<Rightarrow> cell \<Rightarrow> cell" where
  \<comment> \<open>\<^verbatim>\<open>pd.to_numeric(..., errors="coerce")\<close> on one cell\<close>
  "to_numeric_coerce lib c =
     (case c of
        Num x \<Rightarrow> Num x
      | Str s \<Rightarrow> (case parse_number lib s of None \<Rightarrow> NaN | Some x \<Rightarrow> Num x)
      | NaN \<Rightarrow> NaN)"

definition fillna :: "cell \<Rightarrow> cell \<Rightarrow> cell" where
  "fillna v c = (if c = NaN then v else c)"

definition astype_str :: "transform_lib \<Rightarrow> cell \<Rightarrow> string option" where
  \<comment> \<open>\<^verbatim>\<open>astype(str)\<close> on one cell (pandas 1 and 2): every cell becomes a string, the
      missing value becomes the string \<^verbatim>\<open>nan\<close>. The result is a cell of a string column,
      \<open>None\<close> for a missing one.\<close>
  "astype_str lib c =
     Some (case c of Num x \<Rightarrow> number_str lib x | Str s \<Rightarrow> s | NaN \<Rightarrow> ''nan'')"

definition fillna_str :: "string \<Rightarrow> string option \<Rightarrow> string" where
  \<comment> \<open>\<^verbatim>\<open>fillna(v)\<close> on one cell of a string column\<close>
  "fillna_str v c = (case c of None \<Rightarrow> v | Some s \<Rightarrow> s)"

definition hashed_string :: "transform_lib \<Rightarrow> cell \<Rightarrow> string" where
  \<comment> \<open>line 83: \<^verbatim>\<open>df[col].astype(str).fillna("unknown")\<close>, the string that is hashed\<close>
  "hashed_string lib c = fillna_str ''unknown'' (astype_str lib c)"

definition hash_column_names :: "string \<Rightarrow> string list" where
  "hash_column_names col = map (\<lambda>i. col @ ''_hash_'' @ str_nat i) [0 ..< HASH_FEATURES]"

definition hashed_df :: "transform_lib \<Rightarrow> frame \<Rightarrow> string \<Rightarrow> frame" where
  "hashed_df lib df col =
     \<lparr>columns = hash_column_names col,
      rows = map (\<lambda>r. feature_hasher lib (hashed_string lib (cell_at df r col))) (rows df)\<rparr>"

definition select_columns :: "string list \<Rightarrow> frame \<Rightarrow> error + frame" where
  \<comment> \<open>\<^verbatim>\<open>df[cols]\<close>: a KeyError when a label is not a column\<close>
  "select_columns cs f =
     (case filter (\<lambda>c. c \<notin> set (columns f)) cs of
        [] \<Rightarrow> Inr \<lparr>columns = cs, rows = map (\<lambda>r. map (cell_at f r) cs) (rows f)\<rparr>
      | c # _ \<Rightarrow> Inl (Key_error c))"

definition concat_axis_1 :: "frame \<Rightarrow> frame list \<Rightarrow> frame" where
  \<comment> \<open>\<^verbatim>\<open>pd.concat([f] + gs, axis=1)\<close> of frames with the same row index \<open>0..n-1\<close>\<close>
  "concat_axis_1 f gs =
     \<lparr>columns = columns f @ concat (map columns gs),
      rows = map (\<lambda>i. rows f ! i @ concat (map (\<lambda>g. rows g ! i) gs)) [0 ..< length (rows f)]\<rparr>"

definition assign_column :: "string \<Rightarrow> cell list \<Rightarrow> frame \<Rightarrow> frame" where
  \<comment> \<open>\<^verbatim>\<open>df[c] = values\<close> for a new label \<open>c\<close> and one value per row\<close>
  "assign_column c vs f =
     \<lparr>columns = columns f @ [c], rows = map (\<lambda>rv. fst rv @ [snd rv]) (zip (rows f) vs)\<rparr>"

fun numerical_to_numeric :: "transform_lib \<Rightarrow> string list \<Rightarrow> frame \<Rightarrow> frame" where
  \<comment> \<open>the loop over \<^verbatim>\<open>NUMERICAL_COLS\<close>: a column that is present is coerced to numbers,
      with 0 for what is not a number\<close>
  "numerical_to_numeric lib [] df = df"
| "numerical_to_numeric lib (col # cols) df =
     (if col \<in> set (columns df)
      then numerical_to_numeric lib cols
             (map_column col (\<lambda>c. fillna (Num 0) (to_numeric_coerce lib c)) df)
      else numerical_to_numeric lib cols df)"

definition preprocess_data :: "transform_lib \<Rightarrow> frame \<Rightarrow> error + frame" where
  "preprocess_data lib df0 =
     (if ''price'' \<in> set (columns df0) then
        (let price = column ''price'' df0;
             df1 = drop_column ''price'' df0;
             df2 = numerical_to_numeric lib NUMERICAL_COLS df1;
             categorical_features =
               map (hashed_df lib df2) (filter (\<lambda>col. col \<in> set (columns df2)) CATEGORICAL_COLS)
         in case select_columns NUMERICAL_COLS df2 of
              Inl e \<Rightarrow> Inl e
            | Inr numerical_df \<Rightarrow>
                Inr (assign_column ''price'' price (concat_axis_1 numerical_df categorical_features)))
      else Inl Price_not_found)"

definition frame_of_documents :: "document list \<Rightarrow> frame" where
  \<comment> \<open>\<^verbatim>\<open>pd.DataFrame(documents)\<close>: the columns are the keys in order of first appearance,
      a key that a document lacks gives a missing cell\<close>
  "frame_of_documents docs =
     (let cs = all_columns [] (map (map fst) docs)
      in \<lparr>columns = cs,
          rows = map (\<lambda>d. map (\<lambda>c. case map_of d c of None \<Rightarrow> NaN | Some x \<Rightarrow> x) cs) docs\<rparr>)"

definition cron_read_csv_from_gcs :: "producer_env \<Rightarrow> bucket \<Rightarrow> string \<Rightarrow> frame option" where
  \<comment> \<open>\<open>None\<close> when the blob does not exist, and when reading it raises\<close>
  "cron_read_csv_from_gcs env b name =
     (case map_of b name of
        None \<Rightarrow> None
      | Some df \<Rightarrow> if download_fails env name then None else Some df)"

definition delete_blob_from_gcs :: "producer_env \<Rightarrow> bucket \<Rightarrow> string \<Rightarrow> bucket" where
  \<comment> \<open>the bucket after the call; a failed delete is caught and leaves it as it is\<close>
  "delete_blob_from_gcs env b name = (if delete_fails env name then b else AList.delete name b)"

definition upload_csv_to_gcs ::
  "producer_env \<Rightarrow> bucket \<Rightarrow> string \<Rightarrow> frame \<Rightarrow> bucket \<times> bool" where
  \<comment> \<open>the bucket after the call and the value returned; a failed upload is caught, leaves
      the bucket as it is and returns \<^verbatim>\<open>False\<close>\<close>
  "upload_csv_to_gcs env b name df =
     (if upload_fails env name then (b, False) else (AList.update name df b, True))"

definition get_latest_version :: "producer_env \<Rightarrow> bucket \<Rightarrow> nat" where
  "get_latest_version env b =
     (if listing_fails env then 0
      else max_or_zero (blob_versions (list_blobs b ''versioned/'')))"

definition read_mongodb_collection ::
  "producer_env \<Rightarrow> document list \<Rightarrow> frame \<times> document list" where
  \<comment> \<open>the frame returned and the collection after the call; a failed connection or query
      is caught and gives the empty frame\<close>
  "read_mongodb_collection env coll =
     (if mongo_fails env then (empty_frame, coll)
      else if coll = [] then (empty_frame, coll)
      else (drop_column ''_id'' (frame_of_documents coll), []))"

definition price_last :: "frame \<Rightarrow> frame" where
  \<comment> \<open>lines 268 to 270: \<^verbatim>\<open>merged_df[cols]\<close> with the price column moved to the end\<close>
  "price_last f =
     (if ''price'' \<in> set (columns f)
      then (let cols = filter (\<lambda>c. c \<noteq> ''price'') (columns f) @ [''price'']
            in \<lparr>columns = cols, rows = map (\<lambda>r. map (cell_at f r) cols) (rows f)\<rparr>)
      else f)"

record collected =
  train1_df :: frame
  valid1_df :: frame
  csv1_df :: frame
  csv2_df :: frame
  drained :: producer_state

definition collect :: "producer_env \<Rightarrow> producer_state \<Rightarrow> collected" where
  \<comment> \<open>steps 1 to 3 of \<^verbatim>\<open>main\<close>: the buffer and the two sources are read, and what was
      read is deleted\<close>
  "collect env s =
     (let train1 = cron_read_csv_from_gcs env (BUCKET_2 s) ''instream/train.csv'';
          valid1 = cron_read_csv_from_gcs env (BUCKET_2 s) ''instream/valid.csv'';
          b2 = (case train1 of
                  Some _ \<Rightarrow> delete_blob_from_gcs env (BUCKET_2 s) ''instream/train.csv''
                | None \<Rightarrow> BUCKET_2 s);
          b2' = (case valid1 of
                   Some _ \<Rightarrow> delete_blob_from_gcs env b2 ''instream/valid.csv''
                 | None \<Rightarrow> b2);
          csv1 = cron_read_csv_from_gcs env (BUCKET_1 s) ''data.csv'';
          b1 = (case csv1 of
                  Some _ \<Rightarrow> delete_blob_from_gcs env (BUCKET_1 s) ''data.csv''
                | None \<Rightarrow> BUCKET_1 s);
          mongo = read_mongodb_collection env (COLLECTION_2 s)
      in \<lparr>train1_df = (case train1 of Some df \<Rightarrow> df | None \<Rightarrow> empty_frame),
          valid1_df = (case valid1 of Some df \<Rightarrow> df | None \<Rightarrow> empty_frame),
          csv1_df = (case csv1 of Some df \<Rightarrow> drop_column ''date'' df | None \<Rightarrow> empty_frame),
          csv2_df = fst mongo,
          drained = \<lparr>BUCKET_1 = b1, BUCKET_2 = b2', COLLECTION_2 = snd mongo\<rparr>\<rparr>)"

definition final_frames ::
  "transform_lib \<Rightarrow> config \<Rightarrow> collected \<Rightarrow> frame \<Rightarrow> frame \<times> frame" where
  \<comment> \<open>steps 6 and 7: the split of the new rows and the merge with the buffer\<close>
  "final_frames lib cfg c preprocessed_df =
     (let train_size = train_size_of cfg (length (rows preprocessed_df));
          shuffled = sample_frac_1 lib (rows preprocessed_df);
          new_train_df = preprocessed_df\<lparr>rows := take train_size shuffled\<rparr>;
          new_valid_df = preprocessed_df\<lparr>rows := drop train_size shuffled\<rparr>;
          final_train_df = (if \<not> is_empty (train1_df c)
                            then pd_concat [train1_df c, new_train_df] else new_train_df);
          final_valid_df = (if \<not> is_empty (valid1_df c)
                            then pd_concat [valid1_df c, new_valid_df] else new_valid_df)
      in (final_train_df, final_valid_df))"

definition store_frames ::
  "producer_env \<Rightarrow> config \<Rightarrow> producer_state \<Rightarrow> frame \<Rightarrow> frame \<Rightarrow> producer_result" where
  \<comment> \<open>steps 8 and 9: a new version when the train rows reach the batch size, the buffer
      otherwise\<close>
  "store_frames env cfg s final_train_df final_valid_df =
     (if int (length (rows final_train_df)) \<ge> BATCH_SIZE cfg then
        (let latest_version = get_latest_version env (BUCKET_2 s);
             new_version = latest_version + 1;
             up_train = upload_csv_to_gcs env (BUCKET_2 s) (train_path new_version) final_train_df;
             up_valid = upload_csv_to_gcs env (fst up_train) (valid_path new_version) final_valid_df
         in \<lparr>final_state = s\<lparr>BUCKET_2 := fst up_valid\<rparr>,
             outcome = Published new_version (snd up_train) (snd up_valid)\<rparr>)
      else
        (let up_train = upload_csv_to_gcs env (BUCKET_2 s) ''instream/train.csv'' final_train_df;
             up_valid = upload_csv_to_gcs env (fst up_train) ''instream/valid.csv'' final_valid_df
         in \<lparr>final_state = s\<lparr>BUCKET_2 := fst up_valid\<rparr>, outcome = Buffered\<rparr>))"

definition merge_sources :: "collected \<Rightarrow> frame option" where
  \<comment> \<open>step 4: the rows of the two sources; \<open>None\<close> when both are empty, where \<^verbatim>\<open>main\<close>
      returns\<close>
  "merge_sources c =
     (if \<not> is_empty (csv1_df c) \<and> \<not> is_empty (csv2_df c)
      then Some (pd_concat [csv1_df c, csv2_df c])
      else if \<not> is_empty (csv1_df c) then Some (csv1_df c)
      else if \<not> is_empty (csv2_df c) then Some (csv2_df c)
      else None)"

definition producer_main ::
  "transform_lib \<Rightarrow> producer_env \<Rightarrow> config \<Rightarrow> producer_state \<Rightarrow> producer_result" where
  \<comment> \<open>\<^verbatim>\<open>main\<close> of \<^verbatim>\<open>cronjob.py\<close>\<close>
  "producer_main lib env cfg s =
     (let c = collect env s in
      case merge_sources c of
        None \<Rightarrow> \<lparr>final_state = drained c, outcome = No_new_data\<rparr>
      | Some merged_df \<Rightarrow>
          (case preprocess_data lib (price_last merged_df) of
             Inl e \<Rightarrow> \<lparr>final_state = drained c, outcome = Transform_failed e\<rparr>
           | Inr preprocessed_df \<Rightarrow>
               (case final_frames lib cfg c preprocessed_df of
                  (final_train_df, final_valid_df) \<Rightarrow>
                    store_frames env cfg (drained c) final_train_df final_valid_df)))"

fun producer_runs ::
  "transform_lib \<Rightarrow> config \<Rightarrow> (producer_env \<times> producer_state) list \<Rightarrow> bucket
     \<Rightarrow> bucket \<times> (bucket \<times> producer_exit) list" where
  \<comment> \<open>a sequence of producer runs on one \<^verbatim>\<open>BUCKET_2\<close>: each run has its own environment
      and finds the two sources as its state gives them; the result is the bucket at the
      end and, for each run, the bucket it found and its outcome\<close>
  "producer_runs lib cfg [] b = (b, [])"
| "producer_runs lib cfg ((env, src) # rest) b =
     (let r = producer_main lib env cfg (src\<lparr>BUCKET_2 := b\<rparr>);
          (b', xs) = producer_runs lib cfg rest (BUCKET_2 (final_state r))
      in (b', (b, outcome r) # xs))"

section \<open>Notions the properties are stated with\<close>

definition version_readable :: "consumer_env \<Rightarrow> nat \<Rightarrow> bool" where
  \<comment> \<open>both files of the version can be read\<close>
  "version_readable env v \<longleftrightarrow>
     \<not> isl (read_csv_from_gcs env (train_path v)) \<and> \<not> isl (read_csv_from_gcs env (valid_path v))"

definition blob_frame :: "consumer_env \<Rightarrow> string \<Rightarrow> frame" where
  \<comment> \<open>the frame that reading the blob returns, for a blob that can be read\<close>
  "blob_frame env name = (case read_csv_from_gcs env name of Inl e \<Rightarrow> empty_frame | Inr df \<Rightarrow> df)"

definition latest_in :: "bucket \<Rightarrow> nat" where
  \<comment> \<open>the highest version number among the blob names of the bucket, 0 when there is none\<close>
  "latest_in b = max_or_zero (blob_versions (list_blobs b ''versioned/''))"

definition version_set :: "bucket \<Rightarrow> nat set" where
  \<comment> \<open>the version numbers that the blob names of the bucket carry\<close>
  "version_set b = set (blob_versions (list_blobs b ''versioned/''))"

definition blob_names :: "bucket \<Rightarrow> string set" where
  "blob_names b = fst ` set b"

definition is_versioned :: "string \<Rightarrow> bool" where
  \<comment> \<open>the name lies in the versioned namespace\<close>
  "is_versioned name \<longleftrightarrow> take 10 name = ''versioned/''"

fun published :: "(bucket \<times> producer_exit) list \<Rightarrow> nat list" where
  \<comment> \<open>the version numbers under which a sequence of runs wrote a file, in order\<close>
  "published [] = []"
| "published ((b, Published n t v) # xs) = (if t \<or> v then n # published xs else published xs)"
| "published ((b, x) # xs) = published xs"

definition keeps_versions :: "bucket \<Rightarrow> bucket \<Rightarrow> bool" where
  \<comment> \<open>every blob of the versioned namespace of \<open>b\<close> is in \<open>b'\<close> with the same content\<close>
  "keeps_versions b b' \<longleftrightarrow>
     (\<forall>name f. is_versioned name \<and> map_of b name = Some f \<longrightarrow> map_of b' name = Some f)"

definition no_faults :: "producer_env \<Rightarrow> bool" where
  \<comment> \<open>no call to the stores fails in the run\<close>
  "no_faults env \<longleftrightarrow>
     \<not> listing_fails env \<and> \<not> mongo_fails env \<and> (\<forall>name. \<not> download_fails env name)
     \<and> (\<forall>name. \<not> delete_fails env name) \<and> (\<forall>name. \<not> upload_fails env name)"




definition buffer_frame :: "bucket \<Rightarrow> string \<Rightarrow> frame" where
  \<comment> \<open>the rows that the bucket holds under a name, none when the blob is absent\<close>
  "buffer_frame b name = (case map_of b name of None \<Rightarrow> empty_frame | Some f \<Rightarrow> f)"

definition well_formed :: "frame \<Rightarrow> bool" where
  \<comment> \<open>distinct labels, and one cell per label in every row\<close>
  "well_formed f \<longleftrightarrow> distinct (columns f) \<and> (\<forall>r \<in> set (rows f). length r = length (columns f))"

subsection \<open>Concrete inputs\<close>

definition demo_metrics :: metric_values where
  "demo_metrics =
     \<lparr>train_rmse = 1, train_mae = 1, train_r2 = 0, rmse = 1, mae = 1, r2 = 0, accuracy = 1/2\<rparr>"

definition demo_learner :: "nat learner" where
  \<comment> \<open>a model is the number of times it was fitted; every evaluation gives accuracy 1/2\<close>
  "demo_learner =
     \<lparr>new_model = 0, fit = (\<lambda>m X y. Suc m), evaluate_model = (\<lambda>m X y Xv yv. demo_metrics)\<rparr>"

definition demo_frame :: "rat \<Rightarrow> frame" where
  "demo_frame x = \<lparr>columns = [''sqft_living'', ''price''], rows = [[Num x, Num 100]]\<rparr>"

definition demo_merged :: "rat list \<Rightarrow> frame" where
  "demo_merged xs =
     \<lparr>columns = [''sqft_living'', ''price''], rows = map (\<lambda>x. [Num x, Num 100]) xs\<rparr>"

definition demo_bucket :: bucket where
  \<comment> \<open>versions 1 and 2, complete\<close>
  "demo_bucket =
     [(''versioned/v1/train.csv'', demo_frame 1), (''versioned/v1/valid.csv'', demo_frame 2),
      (''versioned/v2/train.csv'', demo_frame 3), (''versioned/v2/valid.csv'', demo_frame 4)]"

definition gap_bucket :: bucket where
  \<comment> \<open>versions 1 and 3, complete; of version 2 only the train file\<close>
  "gap_bucket =
     [(''versioned/v1/train.csv'', demo_frame 1), (''versioned/v1/valid.csv'', demo_frame 2),
      (''versioned/v2/train.csv'', demo_frame 3),
      (''versioned/v3/train.csv'', demo_frame 5), (''versioned/v3/valid.csv'', demo_frame 6)]"

definition demo_env :: "bucket \<Rightarrow> consumer_env" where
  \<comment> \<open>no call fails\<close>
  "demo_env b =
     \<lparr>bucket_2 = b, list_blobs_fails = False, read_fails = (\<lambda>n. False),
      tracking_read_fails = False, load_model_fails = False, log_model_fails = False,
      new_run_id = ''run-new''\<rparr>"

definition failing_log_env :: consumer_env where
  "failing_log_env = (demo_env demo_bucket)\<lparr>log_model_fails := True\<rparr>"

definition unreachable_tracking_env :: consumer_env where
  "unreachable_tracking_env = (demo_env demo_bucket)\<lparr>tracking_read_fails := True\<rparr>"

definition demo_run :: "string \<Rightarrow> rat \<Rightarrow> string \<Rightarrow> nat mlrun" where
  \<comment> \<open>an earlier run with its accuracy, its tag and a model\<close>
  "demo_run i a t =
     \<lparr>run_id = i, run_name = ''train'', params = [], run_metrics = [(''accuracy'', a)],
      tags = [(''trained_till_version'', t)], model = Some 7\<rparr>"

definition demo_lib :: transform_lib where
  \<comment> \<open>the hash row of a string has a 1 in the slot of its length, when that is below 10\<close>
  "demo_lib =
     \<lparr>parse_number = (\<lambda>s. None), number_str = (\<lambda>x. ''0''),
      feature_hasher = (\<lambda>s. map (\<lambda>i. Num (if i = length s then 1 else 0)) [0 ..< 10]),
      sample_frac_1 = rev\<rparr>"

definition demo_config :: config where
  "demo_config = \<lparr>BATCH_SIZE = 2, train_size_of = (\<lambda>n. (n * 4) div 5)\<rparr>"

definition demo_document :: "string option \<Rightarrow> rat option \<Rightarrow> document" where
  \<comment> \<open>a raw record with every numerical field, with or without a street and a price\<close>
  "demo_document street price =
     [(''_id'', Num 1)] @ map (\<lambda>c. (c, Num 2)) NUMERICAL_COLS
     @ (case street of None \<Rightarrow> [] | Some s \<Rightarrow> [(''street'', Str s)])
     @ [(''city'', Str ''Kent''), (''statezip'', Str ''WA 98042''), (''country'', Str ''USA'')]
     @ (case price of None \<Rightarrow> [] | Some p \<Rightarrow> [(''price'', Num p)])"

definition three_documents :: "document list" where
  "three_documents =
     [demo_document (Some ''Main St'') (Some 5), demo_document None (Some 6),
      demo_document (Some ''Elm Rd'') (Some 7)]"

definition reliable :: producer_env where
  \<comment> \<open>no call fails\<close>
  "reliable =
     \<lparr>download_fails = (\<lambda>n. False), delete_fails = (\<lambda>n. False),
      upload_fails = (\<lambda>n. False), listing_fails = False, mongo_fails = False\<rparr>"

definition source_state :: producer_state where
  \<comment> \<open>three new documents, an empty bucket\<close>
  "source_state = \<lparr>BUCKET_1 = [], BUCKET_2 = [], COLLECTION_2 = three_documents\<rparr>"

definition buffered_state :: producer_state where
  \<comment> \<open>a buffer of one train row and one valid row, and no new row in either source\<close>
  "buffered_state =
     \<lparr>BUCKET_1 = [],
      BUCKET_2 = [(''instream/train.csv'', demo_frame 1), (''instream/valid.csv'', demo_frame 2)],
      COLLECTION_2 = []\<rparr>"

definition full_buffer_state :: producer_state where
  \<comment> \<open>a buffer of two train rows, and no new row in either source\<close>
  "full_buffer_state =
     \<lparr>BUCKET_1 = [],
      BUCKET_2 = [(''instream/train.csv'', demo_merged [1, 2]), (''instream/valid.csv'', demo_frame 3)],
      COLLECTION_2 = []\<rparr>"

definition published_bucket :: bucket where
  \<comment> \<open>version 1, complete\<close>
  "published_bucket =
     [(''versioned/v1/train.csv'', demo_frame 1), (''versioned/v1/valid.csv'', demo_frame 2)]"


definition priceless_bucket :: bucket where
  \<comment> \<open>version 1, complete, without the price column\<close>
  "priceless_bucket =
     [(''versioned/v1/train.csv'', \<lparr>columns = [''sqft_living''], rows = [[Num 1]]\<rparr>),
      (''versioned/v1/valid.csv'', \<lparr>columns = [''sqft_living''], rows = [[Num 2]]\<rparr>)]"

definition unreadable_env :: consumer_env where
  \<comment> \<open>the tracking store cannot be read, and no blob of the bucket either\<close>
  "unreadable_env = unreachable_tracking_env\<lparr>read_fails := (\<lambda>n. True)\<rparr>"

definition failing_uploads :: producer_env where
  \<comment> \<open>every upload fails\<close>
  "failing_uploads = reliable\<lparr>upload_fails := (\<lambda>n. True)\<rparr>"

definition later_documents :: "document list" where
  "later_documents =
     [demo_document (Some ''Oak Ave'') (Some 8), demo_document (Some ''Pine Ct'') (Some 9),
      demo_document None (Some 10)]"

definition refilled_state :: producer_state where
  \<comment> \<open>the buffer that a run on \<open>source_state\<close> below the threshold leaves, and three later
      documents\<close>
  "refilled_state =
     (final_state (producer_main demo_lib reliable (demo_config\<lparr>BATCH_SIZE := 5\<rparr>) source_state))
       \<lparr>COLLECTION_2 := later_documents\<rparr>"

section \<open>Facts about the consumer\<close>

subsection \<open>Decimal numerals and version paths\<close>

lemma digit_val_char: "d < 10 \<Longrightarrow> digit_val (digit_char d) = d"
proof -
  assume "d < 10"
  then have "d \<in> {0,1,2,3,4,5,6,7,8,9}" by auto
  then show ?thesis by (auto simp: digit_val_def digit_char_def)
qed

lemma is_digit_char: "d < 10 \<Longrightarrow> is_digit (digit_char d)"
proof -
  assume "d < 10"
  then have "d \<in> {0,1,2,3,4,5,6,7,8,9}" by auto
  then show ?thesis by (auto simp: is_digit_def digit_char_def)
qed

lemma str_nat_digits: "\<forall>c \<in> set (str_nat n). is_digit c"
proof (induction n rule: str_nat.induct)
  case (1 n)
  show ?case
  proof (cases "n < 10")
    case True
    then show ?thesis by (simp add: str_nat.simps[of n] is_digit_char)
  next
    case False
    with 1 show ?thesis by (simp add: str_nat.simps[of n] is_digit_char)
  qed
qed

lemma str_nat_nonempty: "str_nat n \<noteq> []"
  by (simp add: str_nat.simps[of n])

lemma int_of_digits_snoc: "int_of_digits (ds @ [c]) = 10 * int_of_digits ds + digit_val c"
  by (simp add: int_of_digits_def)

lemma int_of_digits_str_nat: "int_of_digits (str_nat n) = n"
proof (induction n rule: str_nat.induct)
  case (1 n)
  show ?case
  proof (cases "n < 10")
    case True
    then show ?thesis by (simp add: str_nat.simps[of n] int_of_digits_def digit_val_char)
  next
    case False
    with 1 show ?thesis
      by (simp add: str_nat.simps[of n] int_of_digits_snoc digit_val_char)
  qed
qed

lemma takeWhile_digits_stop:
  "\<forall>c \<in> set ds. is_digit c \<Longrightarrow> \<not> is_digit x \<Longrightarrow> takeWhile is_digit (ds @ x # r) = ds"
  by (induction ds) auto

lemma dropWhile_digits_stop:
  "\<forall>c \<in> set ds. is_digit c \<Longrightarrow> \<not> is_digit x \<Longrightarrow> dropWhile is_digit (ds @ x # r) = x # r"
  by (induction ds) auto



lemma slash_not_digit: "\<not> is_digit CHR ''/''"
  by (simp add: is_digit_def)

lemma version_match_here_path:
  "version_match_here (''versioned/v'' @ str_nat n @ CHR ''/'' # r) = Some (str_nat n)"
  using str_nat_digits[of n] str_nat_nonempty[of n]
  by (simp add: version_match_here_def takeWhile_digits_stop dropWhile_digits_stop slash_not_digit)

lemma search_version_here:
  "version_match_here s = Some ds \<Longrightarrow> search_version s = Some ds"
  by (cases s) (simp_all add: version_match_here_def)

lemma search_version_path:
  "search_version (''versioned/v'' @ str_nat n @ CHR ''/'' # r) = Some (str_nat n)"
  by (rule search_version_here) (rule version_match_here_path)


subsection \<open>The loading loop\<close>

lemma load_versions_closed:
  "load_versions env vs tr va evs =
     (tr @ map (\<lambda>v. blob_frame env (train_path v)) (filter (version_readable env) vs),
      va @ map (\<lambda>v. blob_frame env (valid_path v)) (filter (version_readable env) vs),
      evs @ map Could_not_load (filter (\<lambda>v. \<not> version_readable env v) vs))"
  by (induction vs arbitrary: tr va evs)
     (auto simp: version_readable_def blob_frame_def split: sum.splits)

lemma load_versioned_data_closed:
  "load_versioned_data env s e =
     (map Could_not_load (filter (\<lambda>v. \<not> version_readable env v) [s ..< Suc e]),
      if filter (version_readable env) [s ..< Suc e] = [] then Inl (No_training_data s e)
      else Inr (pd_concat (map (\<lambda>v. blob_frame env (train_path v))
                              (filter (version_readable env) [s ..< Suc e])),
                pd_concat (map (\<lambda>v. blob_frame env (valid_path v))
                              (filter (version_readable env) [s ..< Suc e]))))"
  by (simp add: load_versioned_data_def load_versions_closed)

lemma load_versioned_data_error:
  "load_versioned_data env s e = (evs, Inl x) \<Longrightarrow> x = No_training_data s e"
  by (auto simp: load_versioned_data_def split: prod.splits if_splits)


subsection \<open>The best run\<close>

lemma metric_less_trans_neg:
  "\<not> metric_less a b \<Longrightarrow> metric_less a c \<Longrightarrow> metric_less b c"
  by (auto simp: metric_less_def split: option.splits)

lemma best_of_self:
  "\<forall>r \<in> set rs. \<not> metric_less (run_accuracy b) (run_accuracy r) \<Longrightarrow> best_of b rs = b"
  by (induction rs) auto

lemma best_of_later:
  "\<exists>r \<in> set rs. metric_less (run_accuracy b) (run_accuracy r) \<Longrightarrow>
     best_of b rs = best_of (hd rs) (tl rs)"
proof (induction rs arbitrary: b)
  case Nil
  then show ?case by simp
next
  case (Cons r rs)
  show ?case
  proof (cases "metric_less (run_accuracy b) (run_accuracy r)")
    case True
    then show ?thesis by simp
  next
    case False
    with Cons.prems obtain x where x: "x \<in> set rs" "metric_less (run_accuracy b) (run_accuracy x)"
      by auto
    from False x(2) have "metric_less (run_accuracy r) (run_accuracy x)"
      by (rule metric_less_trans_neg)
    with x(1) have "best_of r rs = best_of (hd rs) (tl rs)"
      using Cons.IH[of r] by blast
    moreover from x have "best_of b rs = best_of (hd rs) (tl rs)"
      using Cons.IH[of b] by blast
    ultimately show ?thesis using False by simp
  qed
qed

lemma search_runs_new_best:
  "\<forall>r \<in> set st. \<not> metric_less (run_accuracy run) (run_accuracy r) \<Longrightarrow>
     search_runs (run # st) = [run]"
  by (simp add: search_runs_def best_of_self)

lemma search_runs_old_best:
  assumes "\<exists>r \<in> set st. metric_less (run_accuracy run) (run_accuracy r)"
  shows "search_runs (run # st) = search_runs st"
proof (cases st)
  case Nil
  with assms show ?thesis by simp
next
  case (Cons r rs)
  from assms have "best_of run st = best_of (hd st) (tl st)"
    by (rule best_of_later)
  with Cons show ?thesis by (simp add: search_runs_def)
qed



subsection \<open>The shape of a consumer run\<close>

lemma training_run_calls:
  "training_calls (training_run lib env st m p s l mt mv evs) =
     [(m, rows (drop_column ''price'' mt), column ''price'' mt)]"
  by (simp add: training_run_def Let_def)

lemma training_run_exit:
  "exit_status (training_run lib env st m p s l mt mv evs) =
     (if log_model_fails env then Raised Log_model_failed else Completed)"
  by (simp add: training_run_def Let_def)

lemma training_run_events:
  "events (training_run lib env st m p s l mt mv evs) = evs"
  by (simp add: training_run_def Let_def)

lemma training_run_tracking:
  "\<exists>run. tracking (training_run lib env st m p s l mt mv evs) = run # st
     \<and> tags run = [(''trained_till_version'', ''v'' @ str_nat l)]
     \<and> run_metrics run = metric_items (evaluate_model lib
           (train_model lib m (rows (drop_column ''price'' mt)) (column ''price'' mt))
           (rows (drop_column ''price'' mt)) (column ''price'' mt)
           (rows (drop_column ''price'' mv)) (column ''price'' mv))
     \<and> model run = (if log_model_fails env then None
          else Some (train_model lib m (rows (drop_column ''price'' mt)) (column ''price'' mt)))"
  by (simp add: training_run_def Let_def)

lemma stopped_fields [simp]:
  "tracking (stopped st evs x) = st" "training_calls (stopped st evs x) = []"
  "events (stopped st evs x) = evs" "exit_status (stopped st evs x) = x"
  by (simp_all add: stopped_def)


text \<open>
  Every consumer run either stops before the tracking store is written, or is a training
  run on the pending range.
\<close>

lemma consumer_main_shape:
  obtains (Stopped) evs x where "consumer_main lib env st = stopped st evs x"
      "x \<noteq> Completed" "x \<noteq> Raised Log_model_failed"
  | (Trained) m w p mt mv evs where "get_best_model_and_version env st = (m, w, p)"
      "w < get_latest_version_from_gcs env"
      "consumer_main lib env st =
         training_run lib env st m p (w + 1) (get_latest_version_from_gcs env) mt mv evs"
proof -
  obtain m w p where g: "get_best_model_and_version env st = (m, w, p)"
    by (cases "get_best_model_and_version env st") auto
  obtain evs res where l:
    "load_versioned_data env (w + 1) (get_latest_version_from_gcs env) = (evs, res)"
    by (cases "load_versioned_data env (w + 1) (get_latest_version_from_gcs env)") auto
  show thesis
  proof (cases "get_latest_version_from_gcs env = 0 \<or> w + 1 > get_latest_version_from_gcs env")
    case True
    then have "consumer_main lib env st = stopped st [] No_versioned_data
             \<or> consumer_main lib env st = stopped st [] Already_trained"
      by (auto simp: consumer_main_def g Let_def)
    then show thesis using Stopped by auto
  next
    case False
    then have w: "w < get_latest_version_from_gcs env" by simp
    show thesis
    proof (cases res)
      case (Inl e)
      with l have "e = No_training_data (w + 1) (get_latest_version_from_gcs env)"
        by (simp add: load_versioned_data_error)
      moreover from False Inl l have "consumer_main lib env st = stopped st evs (Raised e)"
        by (simp add: consumer_main_def g Let_def)
      ultimately show thesis using Stopped by auto
    next
      case (Inr fs)
      obtain mt mv where fs: "fs = (mt, mv)" by (cases fs) auto
      define evs' where "evs' = (if length (columns mt) \<noteq> 53
                                  then evs @ [Unexpected_width (length (columns mt))] else evs)"
      show thesis
      proof (cases "''price'' \<in> set (columns mt) \<and> ''price'' \<in> set (columns mv)")
        case True
        with False Inr l fs have "consumer_main lib env st =
          training_run lib env st m p (w + 1) (get_latest_version_from_gcs env) mt mv evs'"
          by (simp add: consumer_main_def g evs'_def Let_def)
        with g w show thesis using Trained by blast
      next
        case False
        with \<open>\<not> (get_latest_version_from_gcs env = 0 \<or> w + 1 > get_latest_version_from_gcs env)\<close>
          Inr l fs
        have "consumer_main lib env st = stopped st evs' (Raised Price_not_found)
            \<or> consumer_main lib env st = stopped st evs' (Raised (Key_error ''price''))"
          by (auto simp: consumer_main_def g evs'_def Let_def)
        then show thesis using Stopped by auto
      qed
    qed
  qed
qed

lemma watermark_new_best:
  assumes "\<forall>r \<in> set st. \<not> metric_less (run_accuracy run) (run_accuracy r)"
  shows "watermark env (run # st) =
           (if tracking_read_fails env \<or> load_model env run = None then 0 else tag_version run)"
  using search_runs_new_best[OF assms]
  by (auto simp: watermark_def get_best_model_and_version_def)

lemma watermark_old_best:
  assumes "\<exists>r \<in> set st. metric_less (run_accuracy run) (run_accuracy r)"
  shows "watermark env (run # st) = watermark env st"
  using search_runs_old_best[OF assms]
  by (simp add: watermark_def get_best_model_and_version_def)


text \<open>The id that the tracking store gives to the new run has no influence on what is read.\<close>

lemma read_csv_new_id [simp]:
  "read_csv_from_gcs (env\<lparr>new_run_id := i\<rparr>) = read_csv_from_gcs env"
  by (rule ext) (simp add: read_csv_from_gcs_def split: option.splits)

lemma load_versions_new_id [simp]:
  "load_versions (env\<lparr>new_run_id := i\<rparr>) vs tr va evs = load_versions env vs tr va evs"
  by (induction vs arbitrary: tr va evs) (auto split: sum.splits)

lemma load_versioned_data_new_id [simp]:
  "load_versioned_data (env\<lparr>new_run_id := i\<rparr>) = load_versioned_data env"
  by (intro ext) (simp add: load_versioned_data_def)

lemma get_latest_new_id [simp]:
  "get_latest_version_from_gcs (env\<lparr>new_run_id := i\<rparr>) = get_latest_version_from_gcs env"
  by (simp add: get_latest_version_from_gcs_def)

lemma get_best_new_id [simp]:
  "get_best_model_and_version (env\<lparr>new_run_id := i\<rparr>) = get_best_model_and_version env"
  by (intro ext) (simp add: get_best_model_and_version_def load_model_def split: list.splits)

lemma watermark_new_id [simp]:
  "watermark (env\<lparr>new_run_id := i\<rparr>) = watermark env"
  by (intro ext) (simp add: watermark_def)

lemma training_calls_new_id:
  "training_calls (consumer_main lib (env\<lparr>new_run_id := i\<rparr>) st)
     = training_calls (consumer_main lib env st)"
  by (simp add: consumer_main_def Let_def training_run_calls
           split: prod.splits sum.splits)



text \<open>A run that could read a version of its range is not stopped by the loading step.\<close>

lemma consumer_main_after_load:
  assumes g: "get_best_model_and_version env st = (m, w, p)"
    and w: "w < get_latest_version_from_gcs env"
    and ok: "filter (version_readable env) [w + 1 ..< Suc (get_latest_version_from_gcs env)] \<noteq> []"
  shows "(\<forall>a b. exit_status (consumer_main lib env st) \<noteq> Raised (No_training_data a b))"
    and "\<forall>v \<in> set [w + 1 ..< Suc (get_latest_version_from_gcs env)].
           version_readable env v \<or> Could_not_load v \<in> set (events (consumer_main lib env st))"
  using w ok
  by (auto simp: consumer_main_def g Let_def load_versioned_data_closed training_run_events
        training_run_exit simp del: upt_Suc)

subsection \<open>A second invocation\<close>









section \<open>Properties of the consumer\<close>

subsection \<open>C1: the watermark when logging the model fails\<close>

text \<open>
  C1 says that a run in which logging the model artifact fails leaves the recorded
  watermark as it was, the tag being written only after the artifact. The source sets
  the tag on the new run first (line 429) and logs the model after it (line 434). At the
  input below an earlier run of accuracy 1/4 carries the tag \<^verbatim>\<open>v1\<close>, versions 1 and 2 are
  published and \<^verbatim>\<open>log_model\<close> raises: the failed run stays in the store with the tag
  \<^verbatim>\<open>v2\<close>, and since it is now the best run and has no model, the next run reads the
  watermark 0 where it was 1 before.
\<close>

theorem watermark_after_failed_log_counterexample:
  "log_model_fails failing_log_env
   \<and> exit_status (consumer_main demo_learner failing_log_env [demo_run ''a'' (1/4) ''v1''])
       = Raised Log_model_failed
   \<and> watermark failing_log_env [demo_run ''a'' (1/4) ''v1''] = 1
   \<and> watermark failing_log_env
        (tracking (consumer_main demo_learner failing_log_env [demo_run ''a'' (1/4) ''v1''])) = 0
   \<and> map tags (tracking (consumer_main demo_learner failing_log_env [demo_run ''a'' (1/4) ''v1'']))
       = [[(''trained_till_version'', ''v2'')], [(''trained_till_version'', ''v1'')]]"
  by code_simp


text \<open>
  C1, as the code has it: a run in which logging the model artifact fails leaves a new run
  in the tracking store that carries the tag \<^verbatim>\<open>trained_till_version = v{L}\<close> and no model
  artifact, in front of the earlier runs, which are unchanged. The watermark that is read
  afterwards is the one read before when an earlier run has a strictly higher accuracy
  than the failed run, and 0 otherwise.
\<close>

theorem failed_artifact_log_keeps_tagged_run:
  assumes "exit_status (consumer_main lib env st) = Raised Log_model_failed"
  shows "\<exists>run. tracking (consumer_main lib env st) = run # st
           \<and> map_of (tags run) ''trained_till_version''
               = Some (''v'' @ str_nat (get_latest_version_from_gcs env))
           \<and> model run = None
           \<and> watermark env (run # st) =
               (if \<exists>r \<in> set st. metric_less (run_accuracy run) (run_accuracy r)
                then watermark env st else 0)"
proof (cases rule: consumer_main_shape[of lib env st])
  case (Stopped evs x)
  with assms show ?thesis by simp
next
  case (Trained m w p mt mv evs)
  with assms have f: "log_model_fails env"
    by (simp add: training_run_exit split: if_splits)
  from training_run_tracking[of lib env st m p "w + 1" "get_latest_version_from_gcs env" mt mv evs]
  obtain run where run:
    "tracking (consumer_main lib env st) = run # st"
    "tags run = [(''trained_till_version'', ''v'' @ str_nat (get_latest_version_from_gcs env))]"
    "model run = None"
    using Trained(3) f by auto
  have "watermark env (run # st) =
          (if \<exists>r \<in> set st. metric_less (run_accuracy run) (run_accuracy r)
           then watermark env st else 0)"
  proof (cases "\<exists>r \<in> set st. metric_less (run_accuracy run) (run_accuracy r)")
    case True
    then show ?thesis by (simp add: watermark_old_best)
  next
    case False
    then have "\<forall>r \<in> set st. \<not> metric_less (run_accuracy run) (run_accuracy r)" by blast
    from watermark_new_best[OF this, of env] run(3) False show ?thesis
      by (simp add: load_model_def)
  qed
  with run show ?thesis by simp
qed

theorem failed_artifact_log_witness:
  "exit_status (consumer_main demo_learner failing_log_env [demo_run ''a'' (1/4) ''v1''])
     = Raised Log_model_failed
   \<and> (\<exists>run. tracking (consumer_main demo_learner failing_log_env [demo_run ''a'' (1/4) ''v1''])
               = run # [demo_run ''a'' (1/4) ''v1'']
         \<and> map_of (tags run) ''trained_till_version'' = Some ''v2''
         \<and> model run = None
         \<and> watermark failing_log_env (run # [demo_run ''a'' (1/4) ''v1'']) = 0)"
proof -
  have h: "exit_status (consumer_main demo_learner failing_log_env [demo_run ''a'' (1/4) ''v1''])
     = Raised Log_model_failed" by code_simp
  have L: "get_latest_version_from_gcs failing_log_env = 2" by code_simp
  have s: "str_nat 2 = ''2''" by code_simp
  from failed_artifact_log_keeps_tagged_run[OF h] obtain run where
    r: "tracking (consumer_main demo_learner failing_log_env [demo_run ''a'' (1/4) ''v1''])
               = run # [demo_run ''a'' (1/4) ''v1'']"
      "map_of (tags run) ''trained_till_version'' = Some (''v'' @ str_nat 2)"
      "model run = None"
      "watermark failing_log_env (run # [demo_run ''a'' (1/4) ''v1'']) =
               (if \<exists>r \<in> set [demo_run ''a'' (1/4) ''v1'']. metric_less (run_accuracy run) (run_accuracy r)
                then watermark failing_log_env [demo_run ''a'' (1/4) ''v1''] else 0)"
    unfolding L by blast
  have "tracking (consumer_main demo_learner failing_log_env [demo_run ''a'' (1/4) ''v1''])
     = [\<lparr>run_id = ''run-new'', run_name = ''train_v2_to_v2'',
        params =
          [(''model_type'', ''linear_regression''),
           (''trained_from_version'', ''2''),
           (''trained_to_version'', ''2''), (''n_features'', ''1''),
           (''n_train_samples'', ''1''), (''n_valid_samples'', ''1''),
           (''previous_run_id'', ''a'')],
        run_metrics =
          [(''train_rmse'', 1), (''train_mae'', 1), (''train_r2'', 0),
           (''rmse'', 1), (''mae'', 1), (''r2'', 0), (''accuracy'', 1 / 2)],
        tags = [(''trained_till_version'', ''v2'')], model = None\<rparr>, demo_run ''a'' (1/4) ''v1'']"
    by code_simp
  with r(1) have "run_metrics run =
          [(''train_rmse'', 1), (''train_mae'', 1), (''train_r2'', 0),
           (''rmse'', 1), (''mae'', 1), (''r2'', 0), (''accuracy'', 1 / 2)]" by auto
  then have "run_accuracy run = Some (1/2)" by (simp add: run_accuracy_def)
  moreover have "run_accuracy (demo_run ''a'' (1/4) ''v1'') = Some (1/4)" by code_simp
  ultimately have "\<not> (\<exists>r \<in> set [demo_run ''a'' (1/4) ''v1'']. metric_less (run_accuracy run) (run_accuracy r))"
    by (simp add: metric_less_def)
  with r(4) have "watermark failing_log_env (run # [demo_run ''a'' (1/4) ''v1'']) = 0" by simp
  with h r s show ?thesis by auto
qed


subsection \<open>C2: a second run without new versions\<close>





subsection \<open>C6: the column count of the merged data\<close>

text \<open>
  C6 says that a run whose merged data does not have 53 columns aborts before training.
  The source only prints a warning (line 372). At the input below the merged data has 2
  columns, and the run trains on it and completes.
\<close>

theorem unexpected_width_trains_counterexample:
  "length (columns (fst (case snd (load_versioned_data (demo_env demo_bucket) 1 2) of Inr fs \<Rightarrow> fs))) = 2
   \<and> training_calls (consumer_main demo_learner (demo_env demo_bucket) [])
       = [(None, [[Num 1], [Num 3]], [Num 100, Num 100])]
   \<and> exit_status (consumer_main demo_learner (demo_env demo_bucket) []) = Completed"
  by code_simp


text \<open>
  C6, as the code has it: a run whose merged training data does not have 53 columns
  records the warning and goes on; it trains when both merged frames have the price column,
  and it aborts before training when the training frame has no price column.
\<close>

theorem unexpected_width_only_warns:
  assumes g: "get_best_model_and_version env st = (m, w, p)"
    and w: "w < get_latest_version_from_gcs env"
    and l: "load_versioned_data env (w + 1) (get_latest_version_from_gcs env) = (evs, Inr (mt, mv))"
    and n: "length (columns mt) \<noteq> 53"
  shows "Unexpected_width (length (columns mt)) \<in> set (events (consumer_main lib env st))
       \<and> (''price'' \<in> set (columns mt) \<and> ''price'' \<in> set (columns mv) \<longrightarrow>
            training_calls (consumer_main lib env st)
              = [(m, rows (drop_column ''price'' mt), column ''price'' mt)])
       \<and> (''price'' \<notin> set (columns mt) \<longrightarrow>
            consumer_main lib env st
              = stopped st (evs @ [Unexpected_width (length (columns mt))]) (Raised Price_not_found))"
  using w n l
  by (simp add: consumer_main_def g Let_def training_run_calls training_run_events)

theorem unexpected_width_witness:
  "get_best_model_and_version (demo_env demo_bucket) ([] :: nat mlrun list) = (None, 0, None)
   \<and> 0 < get_latest_version_from_gcs (demo_env demo_bucket)
   \<and> load_versioned_data (demo_env demo_bucket) (0 + 1) (get_latest_version_from_gcs (demo_env demo_bucket))
        = ([], Inr (demo_merged [1, 3], demo_merged [2, 4]))
   \<and> length (columns (demo_merged [1, 3])) \<noteq> 53
   \<and> Unexpected_width 2 \<in> set (events (consumer_main demo_learner (demo_env demo_bucket) []))
   \<and> training_calls (consumer_main demo_learner (demo_env demo_bucket) [])
       = [(None, [[Num 1], [Num 3]], [Num 100, Num 100])]"
proof -
  have g: "get_best_model_and_version (demo_env demo_bucket) ([] :: nat mlrun list) = (None, 0, None)"
    by code_simp
  have w: "0 < get_latest_version_from_gcs (demo_env demo_bucket)" by code_simp
  have l: "load_versioned_data (demo_env demo_bucket) (0 + 1) (get_latest_version_from_gcs (demo_env demo_bucket))
        = ([], Inr (demo_merged [1, 3], demo_merged [2, 4]))" by code_simp
  have n: "length (columns (demo_merged [1, 3])) \<noteq> 53" by code_simp
  have p: "''price'' \<in> set (columns (demo_merged [1, 3])) \<and> ''price'' \<in> set (columns (demo_merged [2, 4]))"
    by code_simp
  have e: "length (columns (demo_merged [1, 3])) = 2"
    "rows (drop_column ''price'' (demo_merged [1, 3])) = [[Num 1], [Num 3]]"
    "column ''price'' (demo_merged [1, 3]) = [Num 100, Num 100]" by code_simp+
  from unexpected_width_only_warns[OF g w l n, of demo_learner] p g w l n e
  show ?thesis by simp
qed


subsection \<open>C9: versions that cannot be read\<close>

text \<open>
  C9 says that an unreadable version never aborts the run. When no version of the pending
  range can be read, \<^verbatim>\<open>load_versioned_data\<close> raises (line 141). At the input below the
  watermark is 1, the latest version is 2 and the valid file of version 2 is missing: the
  run aborts.
\<close>

theorem unreadable_version_aborts_counterexample:
  "get_latest_version_from_gcs (demo_env (take 3 demo_bucket)) = 2
   \<and> watermark (demo_env (take 3 demo_bucket)) [demo_run ''a'' (9/10) ''v1''] = 1
   \<and> read_csv_from_gcs (demo_env (take 3 demo_bucket)) (valid_path 2) = Inl (Read_failed ''versioned/v2/valid.csv'')
   \<and> consumer_main demo_learner (demo_env (take 3 demo_bucket)) [demo_run ''a'' (9/10) ''v1'']
       = stopped [demo_run ''a'' (9/10) ''v1''] [Could_not_load 2] (Raised (No_training_data 2 2))"
  by code_simp


text \<open>
  C9, as the code has it: every version of the range whose train or valid file cannot be
  read is logged and skipped; when at least one version can be read, the train frames of
  the readable versions are concatenated in increasing version order, and so are their
  valid frames, and the run is not aborted by the loading step; when none can be read,
  loading raises.
\<close>

theorem load_versioned_data_skips_unreadable:
  "load_versioned_data env s e =
     (let ok = filter (version_readable env) [s ..< Suc e];
          skipped = filter (\<lambda>v. \<not> version_readable env v) [s ..< Suc e]
      in (map Could_not_load skipped,
          if ok = [] then Inl (No_training_data s e)
          else Inr (pd_concat (map (\<lambda>v. blob_frame env (train_path v)) ok),
                    pd_concat (map (\<lambda>v. blob_frame env (valid_path v)) ok))))
   \<and> (get_best_model_and_version env st = (m, w, p) \<and> w < get_latest_version_from_gcs env
        \<and> filter (version_readable env) [w + 1 ..< Suc (get_latest_version_from_gcs env)] \<noteq> []
      \<longrightarrow> (\<forall>a b. exit_status (consumer_main lib env st) \<noteq> Raised (No_training_data a b))
          \<and> (\<forall>v \<in> set [w + 1 ..< Suc (get_latest_version_from_gcs env)].
                version_readable env v
                \<or> Could_not_load v \<in> set (events (consumer_main lib env st))))"
  using consumer_main_after_load[of env st m w p lib]
  by (simp add: load_versioned_data_closed Let_def del: upt_Suc)

theorem load_versioned_data_witness:
  "load_versioned_data (demo_env gap_bucket) 1 3
     = ([Could_not_load 2], Inr (demo_merged [1, 5], demo_merged [2, 6]))
   \<and> get_best_model_and_version (demo_env gap_bucket) ([] :: nat mlrun list) = (None, 0, None)
   \<and> get_latest_version_from_gcs (demo_env gap_bucket) = 3
   \<and> filter (version_readable (demo_env gap_bucket)) [1 ..< Suc 3] = [1, 3]
   \<and> Could_not_load 2 \<in> set (events (consumer_main demo_learner (demo_env gap_bucket) []))
   \<and> exit_status (consumer_main demo_learner (demo_env gap_bucket) []) = Completed"
proof -
  let ?E = "demo_env gap_bucket"
  have ok: "filter (version_readable ?E) [1 ..< Suc 3] = [1, 3]" by code_simp
  have sk: "filter (\<lambda>v. \<not> version_readable ?E v) [1 ..< Suc 3] = [2]" by code_simp
  have mt: "pd_concat (map (\<lambda>v. blob_frame ?E (train_path v)) [1, 3]) = demo_merged [1, 5]"
    by code_simp
  have mv: "pd_concat (map (\<lambda>v. blob_frame ?E (valid_path v)) [1, 3]) = demo_merged [2, 6]"
    by code_simp
  have g: "get_best_model_and_version ?E ([] :: nat mlrun list) = (None, 0, None)" by code_simp
  have L: "get_latest_version_from_gcs ?E = 3" by code_simp
  have n2: "\<not> version_readable ?E 2" by code_simp
  have ok': "filter (version_readable ?E) [0 + 1 ..< Suc (get_latest_version_from_gcs ?E)] \<noteq> []"
    by code_simp
  have w: "0 < get_latest_version_from_gcs ?E" by code_simp
  have m2: "2 \<in> set [0 + 1 ..< Suc (get_latest_version_from_gcs ?E)]" by code_simp
  note t = load_versioned_data_skips_unreadable[of ?E 1 3 "[] :: nat mlrun list" None 0 None demo_learner]
  from t[THEN conjunct1, unfolded Let_def ok sk mt mv]
  have a: "load_versioned_data ?E 1 3
     = ([Could_not_load 2], Inr (demo_merged [1, 5], demo_merged [2, 6]))"
    by simp
  from t[THEN conjunct2] g w ok'
  have "\<forall>v \<in> set [0 + 1 ..< Suc (get_latest_version_from_gcs ?E)]. version_readable ?E v
      \<or> Could_not_load v \<in> set (events (consumer_main demo_learner ?E []))"
    by blast
  with m2 have "version_readable ?E 2
      \<or> Could_not_load 2 \<in> set (events (consumer_main demo_learner ?E []))"
    by blast
  with n2 have e: "Could_not_load 2 \<in> set (events (consumer_main demo_learner ?E []))" by simp
  have "exit_status (consumer_main demo_learner ?E []) = Completed" by code_simp
  with a g L ok e show ?thesis by simp
qed

subsection \<open>C10: the fallback when the tracking store cannot be read\<close>

text \<open>
  C10 says that after a failure of the tracking store the run does not abort and trains
  again on every published version. The fallback itself does not abort:
  \<^verbatim>\<open>get_best_model_and_version\<close> returns no model and version 0 (lines 225 to 227). The run
  that follows can still abort before any training call. At the first input below the
  tracking store cannot be read and no blob of the bucket either: the run raises in
  \<^verbatim>\<open>load_versioned_data\<close> (line 141). At the second input the only version has no price
  column: the run raises at line 376.
\<close>

theorem tracking_failure_aborts_counterexample:
  "tracking_read_fails unreadable_env
   \<and> get_latest_version_from_gcs unreadable_env = 2
   \<and> consumer_main demo_learner unreadable_env [demo_run ''a'' (9/10) ''v2'']
       = stopped [demo_run ''a'' (9/10) ''v2''] [Could_not_load 1, Could_not_load 2]
           (Raised (No_training_data 1 2))
   \<and> tracking_read_fails ((demo_env priceless_bucket)\<lparr>tracking_read_fails := True\<rparr>)
   \<and> consumer_main demo_learner ((demo_env priceless_bucket)\<lparr>tracking_read_fails := True\<rparr>)
         [demo_run ''a'' (9/10) ''v1'']
       = stopped [demo_run ''a'' (9/10) ''v1''] [Unexpected_width 1] (Raised Price_not_found)"
  by code_simp





section \<open>Facts about the producer\<close>

subsection \<open>Version numbers in a bucket\<close>

lemma max_or_zero_Max: "max_or_zero vs = Max (insert 0 (set vs))"
proof (cases vs)
  case Nil
  then show ?thesis by (simp add: max_or_zero_def)
next
  case (Cons v ws)
  have "Max (set (v # ws)) = fold max ws v" by (rule Max.set_eq_fold)
  moreover have "Max (insert 0 (set (v # ws))) = max 0 (Max (set (v # ws)))"
    by (rule Max_insert) simp_all
  ultimately show ?thesis using Cons by (simp add: max_or_zero_def)
qed

lemma latest_in_Max: "latest_in b = Max (insert 0 (version_set b))"
  by (simp add: latest_in_def version_set_def max_or_zero_Max)

lemma set_map_filter: "set (List.map_filter f xs) = {y. \<exists>x \<in> set xs. f x = Some y}"
  by (induction xs) (auto split: option.splits)

lemma list_blobs_versioned: "list_blobs b ''versioned/'' = filter is_versioned (map fst b)"
proof -
  have l: "length ''versioned/'' = 10" by simp
  show ?thesis unfolding list_blobs_def is_versioned_def l ..
qed

lemma version_set_iff:
  "v \<in> version_set b \<longleftrightarrow>
     (\<exists>name ds. name \<in> blob_names b \<and> is_versioned name \<and> search_version name = Some ds
                 \<and> v = int_of_digits ds)"
  unfolding version_set_def blob_versions_def list_blobs_versioned blob_names_def
  by (auto simp: set_map_filter)

lemma finite_version_set [simp]: "finite (version_set b)"
  by (simp add: version_set_def)

lemma version_le_latest: "v \<in> version_set b \<Longrightarrow> v \<le> latest_in b"
  by (simp add: latest_in_Max)

lemma latest_in_cong: "version_set b = version_set b' \<Longrightarrow> latest_in b = latest_in b'"
  by (simp add: latest_in_Max)

lemma blob_names_delete: "blob_names (AList.delete k b) = blob_names b - {k}"
  unfolding blob_names_def by (induction b) (auto simp: AList.delete_eq)

lemma blob_names_update: "blob_names (AList.update k f b) = insert k (blob_names b)"
  unfolding blob_names_def by (simp add: dom_update)

lemma version_set_delete:
  "\<not> is_versioned k \<Longrightarrow> version_set (AList.delete k b) = version_set b"
  by (rule set_eqI) (simp only: version_set_iff blob_names_delete Diff_iff singleton_iff, blast)

lemma version_set_update_other:
  "\<not> is_versioned k \<Longrightarrow> version_set (AList.update k f b) = version_set b"
  by (rule set_eqI) (simp only: version_set_iff blob_names_update insert_iff, blast)

lemma version_set_update_versioned:
  assumes "is_versioned k" "search_version k = Some ds"
  shows "version_set (AList.update k f b) = insert (int_of_digits ds) (version_set b)"
proof (rule set_eqI)
  fix x
  show "x \<in> version_set (AList.update k f b) \<longleftrightarrow> x \<in> insert (int_of_digits ds) (version_set b)"
  proof
    assume "x \<in> version_set (AList.update k f b)"
    then obtain name ds' where n: "name = k \<or> name \<in> blob_names b" "is_versioned name"
      "search_version name = Some ds'" "x = int_of_digits ds'"
      unfolding version_set_iff blob_names_update by blast
    show "x \<in> insert (int_of_digits ds) (version_set b)"
    proof (cases "name = k")
      case True
      with n(3,4) assms(2) show ?thesis by simp
    next
      case False
      with n have "x \<in> version_set b" unfolding version_set_iff by blast
      then show ?thesis by simp
    qed
  next
    assume "x \<in> insert (int_of_digits ds) (version_set b)"
    then consider "x = int_of_digits ds" | "x \<in> version_set b" by blast
    then show "x \<in> version_set (AList.update k f b)"
    proof cases
      case 1
      with assms show ?thesis unfolding version_set_iff blob_names_update by blast
    next
      case 2
      then show ?thesis unfolding version_set_iff blob_names_update by blast
    qed
  qed
qed


subsection \<open>The paths that are written\<close>

lemma train_path_versioned [simp]: "is_versioned (train_path n)"
  by (simp add: is_versioned_def train_path_def)

lemma valid_path_versioned [simp]: "is_versioned (valid_path n)"
  by (simp add: is_versioned_def valid_path_def)

lemma search_version_train_path [simp]: "search_version (train_path n) = Some (str_nat n)"
  using search_version_path[of n "''train.csv''"] by (simp add: train_path_def)

lemma search_version_valid_path [simp]: "search_version (valid_path n) = Some (str_nat n)"
  using search_version_path[of n "''valid.csv''"] by (simp add: valid_path_def)

lemma instream_not_versioned [simp]:
  "\<not> is_versioned ''instream/train.csv''" "\<not> is_versioned ''instream/valid.csv''"
  by (simp_all add: is_versioned_def)

lemma versioned_not_instream:
  "is_versioned name \<Longrightarrow> name \<noteq> ''instream/train.csv'' \<and> name \<noteq> ''instream/valid.csv''"
  by (auto simp: is_versioned_def)

lemma paths_differ [simp]:
  "train_path n \<noteq> valid_path m" "valid_path m \<noteq> train_path n"
proof -
  have "train_path n = valid_path m \<Longrightarrow> False"
  proof -
    assume a: "train_path n = valid_path m"
    then have "rev (train_path n) = rev (valid_path m)" by simp
    then have "take 9 (rev (train_path n)) = take 9 (rev (valid_path m))" by simp
    then show False by (simp add: train_path_def valid_path_def)
  qed
  then show "train_path n \<noteq> valid_path m" "valid_path m \<noteq> train_path n" by auto
qed

lemma path_not_instream [simp]:
  "train_path n \<noteq> ''instream/train.csv''" "train_path n \<noteq> ''instream/valid.csv''"
  "valid_path n \<noteq> ''instream/train.csv''" "valid_path n \<noteq> ''instream/valid.csv''"
  "''instream/train.csv'' \<noteq> train_path n" "''instream/valid.csv'' \<noteq> train_path n"
  "''instream/train.csv'' \<noteq> valid_path n" "''instream/valid.csv'' \<noteq> valid_path n"
  by (simp_all add: train_path_def valid_path_def)

lemma present_version_le_latest:
  assumes "map_of b (train_path n) = Some f \<or> map_of b (valid_path n) = Some f"
  shows "n \<le> latest_in b"
proof -
  from assms have "(train_path n, f) \<in> set b \<or> (valid_path n, f) \<in> set b"
    by (auto dest: map_of_SomeD)
  then have "train_path n \<in> blob_names b \<or> valid_path n \<in> blob_names b"
    unfolding blob_names_def by force
  then have "int_of_digits (str_nat n) \<in> version_set b"
    unfolding version_set_iff
    using train_path_versioned search_version_train_path valid_path_versioned
      search_version_valid_path by blast
  then show ?thesis by (simp add: int_of_digits_str_nat version_le_latest)
qed

lemma latest_in_update_version:
  assumes "is_versioned k" "search_version k = Some (str_nat n)"
  shows "latest_in (AList.update k f b) = max n (latest_in b)"
proof -
  have "version_set (AList.update k f b) = insert n (version_set b)"
    using version_set_update_versioned[OF assms] by (simp add: int_of_digits_str_nat)
  then have "latest_in (AList.update k f b) = Max (insert n (insert 0 (version_set b)))"
    by (simp add: latest_in_Max insert_commute)
  also have "\<dots> = max n (Max (insert 0 (version_set b)))"
    by (rule Max_insert) simp_all
  finally show ?thesis by (simp add: latest_in_Max)
qed


subsection \<open>One producer run and the versioned namespace\<close>

lemma collect_version_set:
  "version_set (BUCKET_2 (drained (collect env s))) = version_set (BUCKET_2 s)"
  by (simp add: collect_def Let_def delete_blob_from_gcs_def version_set_delete
        split: option.splits)

lemma collect_map_of:
  "is_versioned name \<Longrightarrow>
     map_of (BUCKET_2 (drained (collect env s))) name = map_of (BUCKET_2 s) name"
  by (frule versioned_not_instream)
     (simp add: collect_def Let_def delete_blob_from_gcs_def split: option.splits)

lemma collect_instream_cleared:
  assumes "no_faults env"
  shows "map_of (BUCKET_2 (drained (collect env s))) ''instream/train.csv'' = None"
    and "map_of (BUCKET_2 (drained (collect env s))) ''instream/valid.csv'' = None"
  using assms
  by (auto simp: collect_def Let_def cron_read_csv_from_gcs_def delete_blob_from_gcs_def
        no_faults_def delete_conv' split: option.splits)

lemma upload_version_set_other:
  "\<not> is_versioned k \<Longrightarrow> version_set (fst (upload_csv_to_gcs env b k f)) = version_set b"
  by (simp add: upload_csv_to_gcs_def version_set_update_other)

lemma upload_map_of_other:
  "name \<noteq> k \<Longrightarrow> map_of (fst (upload_csv_to_gcs env b k f)) name = map_of b name"
  by (simp add: upload_csv_to_gcs_def update_conv')

lemma upload_latest_train:
  "latest_in (fst (upload_csv_to_gcs env b (train_path n) f)) =
     (if snd (upload_csv_to_gcs env b (train_path n) f) then max n (latest_in b) else latest_in b)"
  by (simp add: upload_csv_to_gcs_def latest_in_update_version)

lemma upload_latest_valid:
  "latest_in (fst (upload_csv_to_gcs env b (valid_path n) f)) =
     (if snd (upload_csv_to_gcs env b (valid_path n) f) then max n (latest_in b) else latest_in b)"
  by (simp add: upload_csv_to_gcs_def latest_in_update_version)

text \<open>What one call of \<open>store_frames\<close> does to the versioned namespace.\<close>

lemma store_frames_versions:
  fixes env :: producer_env and cfg :: config and s :: producer_state and ft fv :: frame
  assumes "\<not> listing_fails env"
  defines "r \<equiv> store_frames env cfg s ft fv"
  shows "latest_in (BUCKET_2 s) \<le> latest_in (BUCKET_2 (final_state r))"
    and "is_versioned name \<Longrightarrow> map_of (BUCKET_2 s) name = Some f \<Longrightarrow>
           map_of (BUCKET_2 (final_state r)) name = Some f"
    and "outcome r = Published n t v \<Longrightarrow> n = latest_in (BUCKET_2 s) + 1"
    and "outcome r = Published n t v \<Longrightarrow> t \<or> v \<Longrightarrow>
           latest_in (BUCKET_2 (final_state r)) = n"
proof -
  let ?n = "latest_in (BUCKET_2 s) + 1"
  have g: "get_latest_version env (BUCKET_2 s) = latest_in (BUCKET_2 s)"
    using assms(1) by (simp add: get_latest_version_def latest_in_def)
  show "latest_in (BUCKET_2 s) \<le> latest_in (BUCKET_2 (final_state r))"
    unfolding r_def store_frames_def Let_def g
    by (simp add: upload_latest_train upload_latest_valid
          latest_in_cong[OF upload_version_set_other])
  show "map_of (BUCKET_2 (final_state r)) name = Some f"
    if v: "is_versioned name" and m: "map_of (BUCKET_2 s) name = Some f"
  proof -
    have "name \<noteq> train_path ?n" "name \<noteq> valid_path ?n"
      using present_version_le_latest[of "BUCKET_2 s" ?n f] m by auto
    moreover note versioned_not_instream[OF v]
    ultimately show ?thesis
      unfolding r_def store_frames_def Let_def g
      by (simp add: upload_map_of_other m)
  qed
  show "n = latest_in (BUCKET_2 s) + 1" if "outcome r = Published n t v"
    using that unfolding r_def store_frames_def Let_def g by (simp split: if_splits)
  show "latest_in (BUCKET_2 (final_state r)) = n"
    if "outcome r = Published n t v" "t \<or> v"
    using that unfolding r_def store_frames_def Let_def g
    by (auto simp: upload_latest_train upload_latest_valid split: if_splits)
qed

text \<open>A run either ends with the bucket as the collection step left it, or stores frames.\<close>

lemma producer_main_shape:
  "(final_state (producer_main lib env cfg s) = drained (collect env s)
      \<and> (\<forall>n t v. outcome (producer_main lib env cfg s) \<noteq> Published n t v))
   \<or> (\<exists>ft fv. producer_main lib env cfg s
          = store_frames env cfg (drained (collect env s)) ft fv)"
  by (auto simp add: producer_main_def Let_def split: option.split sum.split prod.split)

lemma producer_main_versions:
  fixes lib :: transform_lib and env :: producer_env and cfg :: config and s :: producer_state
  assumes "\<not> listing_fails env"
  defines "r \<equiv> producer_main lib env cfg s"
  shows "latest_in (BUCKET_2 s) \<le> latest_in (BUCKET_2 (final_state r))"
    and "is_versioned name \<Longrightarrow> map_of (BUCKET_2 s) name = Some f \<Longrightarrow>
           map_of (BUCKET_2 (final_state r)) name = Some f"
    and "outcome r = Published n t v \<Longrightarrow> n = latest_in (BUCKET_2 s) + 1"
    and "outcome r = Published n t v \<Longrightarrow> t \<or> v \<Longrightarrow>
           latest_in (BUCKET_2 (final_state r)) = n"
proof -
  let ?d = "drained (collect env s)"
  have l: "latest_in (BUCKET_2 ?d) = latest_in (BUCKET_2 s)"
    by (rule latest_in_cong) (rule collect_version_set)
  have shape: "(final_state r = ?d \<and> (\<forall>n t v. outcome r \<noteq> Published n t v))
      \<or> (\<exists>ft fv. r = store_frames env cfg ?d ft fv)"
    unfolding r_def by (rule producer_main_shape)
  show "latest_in (BUCKET_2 s) \<le> latest_in (BUCKET_2 (final_state r))"
    using shape store_frames_versions(1)[OF assms(1), where s = ?d and cfg = cfg]
    by (auto simp: l)
  show "map_of (BUCKET_2 (final_state r)) name = Some f"
    if v: "is_versioned name" and m: "map_of (BUCKET_2 s) name = Some f"
  proof -
    from v m have m': "map_of (BUCKET_2 ?d) name = Some f" by (simp add: collect_map_of)
    show ?thesis
      using shape m' store_frames_versions(2)[OF assms(1) v m', where cfg = cfg] by auto
  qed
  show "n = latest_in (BUCKET_2 s) + 1" if p: "outcome r = Published n t v"
  proof -
    from p shape obtain ft fv where "r = store_frames env cfg ?d ft fv" by blast
    with p show ?thesis
      using store_frames_versions(3)[OF assms(1), where s = ?d and cfg = cfg and ft = ft
          and fv = fv and n = n and t = t and v = v]
      by (simp add: l)
  qed
  show "latest_in (BUCKET_2 (final_state r)) = n"
    if p: "outcome r = Published n t v" and u: "t \<or> v"
  proof -
    from p shape obtain ft fv where "r = store_frames env cfg ?d ft fv" by blast
    with p u show ?thesis
      using store_frames_versions(4)[OF assms(1), where s = ?d and cfg = cfg and ft = ft
          and fv = fv and n = n and t = t and v = v]
      by simp
  qed
qed

subsection \<open>Sequences of runs\<close>

lemma published_Cons:
  "published ((b, x) # xs) =
     (case x of Published n t v \<Rightarrow> if t \<or> v then n # published xs else published xs
              | _ \<Rightarrow> published xs)"
  by (cases x) simp_all

lemma keeps_versions_refl [simp]: "keeps_versions b b"
  by (simp add: keeps_versions_def)

lemma keeps_versions_trans:
  "keeps_versions a b \<Longrightarrow> keeps_versions b c \<Longrightarrow> keeps_versions a c"
  by (simp add: keeps_versions_def)

lemma producer_runs_invariant:
  assumes "\<forall>run \<in> set runs. \<not> listing_fails (fst run)"
  shows "latest_in b \<le> latest_in (fst (producer_runs lib cfg runs b))
       \<and> keeps_versions b (fst (producer_runs lib cfg runs b))
       \<and> (\<forall>x \<in> set (snd (producer_runs lib cfg runs b)).
             (\<forall>n t v. snd x = Published n t v \<longrightarrow> n = latest_in (fst x) + 1)
             \<and> keeps_versions (fst x) (fst (producer_runs lib cfg runs b)))
       \<and> (\<forall>k \<in> set (published (snd (producer_runs lib cfg runs b))). latest_in b < k)
       \<and> sorted_wrt (<) (published (snd (producer_runs lib cfg runs b)))"
  using assms
proof (induction runs arbitrary: b)
  case Nil
  then show ?case by simp
next
  case (Cons run rest)
  obtain env src where run: "run = (env, src)" by (cases run) auto
  define r where "r = producer_main lib env cfg (src\<lparr>BUCKET_2 := b\<rparr>)"
  define b1 where "b1 = BUCKET_2 (final_state r)"
  define b' where "b' = fst (producer_runs lib cfg rest b1)"
  define xs where "xs = snd (producer_runs lib cfg rest b1)"
  have pr: "producer_runs lib cfg (run # rest) b = (b', (b, outcome r) # xs)"
    by (simp add: run r_def b1_def b'_def xs_def Let_def split: prod.splits)
  from Cons.prems have l: "\<not> listing_fails env"
    and rest: "\<forall>run \<in> set rest. \<not> listing_fails (fst run)"
    by (simp_all add: run)
  note IH = Cons.IH[OF rest, of b1, folded b'_def xs_def]
  have le1: "latest_in b \<le> latest_in b1"
    using producer_main_versions(1)[OF l, of "src\<lparr>BUCKET_2 := b\<rparr>" lib cfg]
    by (simp add: b1_def r_def)
  have k1: "keeps_versions b b1"
    unfolding keeps_versions_def
    using producer_main_versions(2)[OF l, of _ "src\<lparr>BUCKET_2 := b\<rparr>" _ lib cfg]
    by (simp add: b1_def r_def)
  have n1: "n = latest_in b + 1" if "outcome r = Published n t v" for n t v
    using producer_main_versions(3)[OF l, where s = "src\<lparr>BUCKET_2 := b\<rparr>" and lib = lib
        and cfg = cfg and n = n and t = t and v = v] that
    by (simp add: r_def)
  have e1: "latest_in b1 = n" if "outcome r = Published n t v" "t \<or> v" for n t v
    using producer_main_versions(4)[OF l, where s = "src\<lparr>BUCKET_2 := b\<rparr>" and lib = lib
        and cfg = cfg and n = n and t = t and v = v] that
    by (simp add: r_def b1_def)
  have kb: "keeps_versions b b'" using k1 IH by (blast intro: keeps_versions_trans)
  have pub: "\<forall>k \<in> set (published xs). latest_in b1 < k" using IH by blast
  have "latest_in b \<le> latest_in b'" using le1 IH by linarith
  moreover have "\<forall>x \<in> set ((b, outcome r) # xs).
      (\<forall>n t v. snd x = Published n t v \<longrightarrow> n = latest_in (fst x) + 1)
      \<and> keeps_versions (fst x) b'"
    using n1 kb IH by auto
  moreover have "\<forall>k \<in> set (published ((b, outcome r) # xs)). latest_in b < k"
    using pub le1 n1 by (auto simp: published_Cons split: producer_exit.splits)
  moreover have "sorted_wrt (<) (published ((b, outcome r) # xs))"
    using pub e1 IH by (auto simp: published_Cons split: producer_exit.splits)
  ultimately show ?case using kb by (simp add: pr)
qed

subsection \<open>The columns that the transform finds\<close>





subsection \<open>The rows that the transform keeps\<close>


lemma length_rows_drop_column [simp]: "length (rows (drop_column k f)) = length (rows f)"
  by (simp add: drop_column_def)

lemma length_rows_price_last [simp]: "length (rows (price_last f)) = length (rows f)"
  by (simp add: price_last_def Let_def)

lemma length_rows_frame_of_documents [simp]: "length (rows (frame_of_documents docs)) = length docs"
  by (simp add: frame_of_documents_def Let_def)

lemma length_rows_map_column [simp]: "length (rows (map_column c g f)) = length (rows f)"
  by (simp add: map_column_def)

lemma length_rows_numerical_to_numeric [simp]:
  "length (rows (numerical_to_numeric lib cols f)) = length (rows f)"
  by (induction cols arbitrary: f) auto







lemma length_column [simp]: "length (column c f) = length (rows f)"
  by (simp add: column_def)



lemma columns_numerical_to_numeric [simp]:
  "columns (numerical_to_numeric lib cols f) = columns f"
  by (induction cols arbitrary: f) (auto simp: map_column_def)





subsection \<open>The buffer and the new rows\<close>

lemma union_columns_subset: "set cs \<subseteq> set acc \<Longrightarrow> union_columns acc cs = acc"
  by (induction cs arbitrary: acc) auto

lemma union_columns_fresh:
  "distinct cs \<Longrightarrow> set acc \<inter> set cs = {} \<Longrightarrow> union_columns acc cs = acc @ cs"
  by (induction cs arbitrary: acc) auto

lemma all_columns_same: "distinct cs \<Longrightarrow> all_columns [] [cs, cs] = cs"
  by (simp add: union_columns_fresh union_columns_subset)

lemma lookup_own_row:
  "distinct cs \<Longrightarrow> length r = length cs \<Longrightarrow>
     map (\<lambda>c. case map_of (zip cs r) c of None \<Rightarrow> NaN | Some x \<Rightarrow> x) cs = r"
proof (induction cs r rule: list_induct2')
  case (4 c cs x r)
  then have "map (\<lambda>k. case map_of (zip (c # cs) (x # r)) k of None \<Rightarrow> NaN | Some y \<Rightarrow> y) cs
             = map (\<lambda>k. case map_of (zip cs r) k of None \<Rightarrow> NaN | Some y \<Rightarrow> y) cs"
    by (intro map_cong) auto
  with 4 show ?case by simp
qed simp_all

lemma reindex_own: "well_formed f \<Longrightarrow> reindex (columns f) f = rows f"
  by (simp add: reindex_def well_formed_def cell_at_def lookup_own_row cong: map_cong)

lemma length_reindex [simp]: "length (reindex cs f) = length (rows f)"
  by (simp add: reindex_def)

lemma rows_pd_concat2:
  "length (rows (pd_concat [f, g])) = length (rows f) + length (rows g)"
  by (simp add: pd_concat_def Let_def)

lemma pd_concat2_same_columns:
  assumes "well_formed f" "well_formed g" "columns g = columns f"
  shows "pd_concat [f, g] = \<lparr>columns = columns f, rows = rows f @ rows g\<rparr>"
proof -
  from assms have d: "distinct (columns f)" by (simp add: well_formed_def)
  have "all_columns [] (map columns [f, g]) = columns f"
    using all_columns_same[OF d] assms(3) by simp
  moreover have "reindex (columns f) f = rows f" by (rule reindex_own[OF assms(1)])
  moreover have "reindex (columns f) g = rows g" using reindex_own[OF assms(2)] assms(3) by simp
  ultimately show ?thesis by (simp add: pd_concat_def Let_def)
qed

lemma collect_buffer:
  assumes "no_faults env"
  shows "train1_df (collect env s) = buffer_frame (BUCKET_2 s) ''instream/train.csv''"
    and "valid1_df (collect env s) = buffer_frame (BUCKET_2 s) ''instream/valid.csv''"
  using assms
  by (auto simp: collect_def Let_def cron_read_csv_from_gcs_def no_faults_def buffer_frame_def
        split: option.splits)


section \<open>Properties of the producer\<close>

subsection \<open>C3: version numbers\<close>

text \<open>
  C3 says that every new version number is the highest existing one plus 1 and that no
  existing version is overwritten. When listing the bucket raises, \<^verbatim>\<open>get_latest_version\<close>
  returns 0 (lines 174 to 176): at the input below version 1 exists, the listing fails, and
  the run writes version 1 again, over the train file that was there.
\<close>

theorem listing_failure_overwrites_counterexample:
  "latest_in published_bucket = 1
   \<and> outcome (producer_main demo_lib (reliable\<lparr>listing_fails := True\<rparr>) demo_config
        (source_state\<lparr>BUCKET_2 := published_bucket\<rparr>)) = Published 1 True True
   \<and> map_of published_bucket ''versioned/v1/train.csv'' = Some (demo_frame 1)
   \<and> map_of (BUCKET_2 (final_state (producer_main demo_lib (reliable\<lparr>listing_fails := True\<rparr>)
        demo_config (source_state\<lparr>BUCKET_2 := published_bucket\<rparr>)))) ''versioned/v1/train.csv''
       \<noteq> Some (demo_frame 1)"
  by code_simp


text \<open>
  C3, as the code has it: in every sequence of producer runs in which listing the bucket
  succeeds, a run that reaches the threshold takes as version number the highest version
  number of the bucket it found plus 1 (0 for a bucket without versions), which is above
  the number of every version file in that bucket; every blob of the versioned namespace
  that a run found is still there with the same content at the end; and the numbers
  under which a file was written are strictly increasing, so none is used twice. A run
  whose two uploads fail writes nothing, and the next run takes the same number.
\<close>

theorem published_versions_increase:
  assumes "\<forall>run \<in> set runs. \<not> listing_fails (fst run)"
  shows "(\<forall>x \<in> set (snd (producer_runs lib cfg runs b)).
            (\<forall>n t v. snd x = Published n t v \<longrightarrow>
                   n = latest_in (fst x) + 1
                 \<and> (\<forall>m f. map_of (fst x) (train_path m) = Some f
                             \<or> map_of (fst x) (valid_path m) = Some f \<longrightarrow> m < n))
            \<and> keeps_versions (fst x) (fst (producer_runs lib cfg runs b)))
       \<and> sorted_wrt (<) (published (snd (producer_runs lib cfg runs b)))"
proof -
  have "m < latest_in c + 1"
    if "map_of c (train_path m) = Some f \<or> map_of c (valid_path m) = Some f" for c m f
    using present_version_le_latest[OF that] by simp
  with producer_runs_invariant[OF assms, of b lib cfg] show ?thesis by blast
qed

theorem published_versions_witness:
  "\<not> listing_fails reliable \<and> \<not> listing_fails failing_uploads
   \<and> map snd (snd (producer_runs demo_lib demo_config
        [(reliable, source_state), (failing_uploads, source_state), (reliable, source_state)] []))
       = [Published 1 True True, Published 2 False False, Published 2 True True]
   \<and> published (snd (producer_runs demo_lib demo_config
        [(reliable, source_state), (failing_uploads, source_state), (reliable, source_state)] []))
       = [1, 2]
   \<and> sorted_wrt (<) (published (snd (producer_runs demo_lib demo_config
        [(reliable, source_state), (failing_uploads, source_state), (reliable, source_state)] [])))"
proof -
  have h1: "\<not> listing_fails reliable" by (simp add: reliable_def)
  have h2: "\<not> listing_fails failing_uploads" by (simp add: reliable_def failing_uploads_def)
  have h: "\<forall>run \<in> set [(reliable, source_state), (failing_uploads, source_state),
                            (reliable, source_state)]. \<not> listing_fails (fst run)"
    using h1 h2 by simp
  have p: "map snd (snd (producer_runs demo_lib demo_config
        [(reliable, source_state), (failing_uploads, source_state), (reliable, source_state)] []))
       = [Published 1 True True, Published 2 False False, Published 2 True True]"
     "published (snd (producer_runs demo_lib demo_config
        [(reliable, source_state), (failing_uploads, source_state), (reliable, source_state)] []))
       = [1, 2]"
    by code_simp+
  from published_versions_increase[OF h, of demo_lib demo_config "[]"] h1 h2 p
  show ?thesis by blast
qed

subsection \<open>C4: the rows of the buffer\<close>

text \<open>
  C4 says that the rows loaded from the instream buffer are published or written back by
  the end of the run, also when the two sources give no new row. The source deletes the
  two instream files when it has read them (lines 223 and 230) and returns at
  \<^verbatim>\<open>No new data to process\<close> (line 265) without writing them back. At the input below
  the buffer holds one train row and one valid row, both sources are empty and no call
  fails: the bucket is empty after the run.
\<close>

theorem buffer_lost_without_new_rows:
  "map_of (BUCKET_2 buffered_state) ''instream/train.csv'' = Some (demo_frame 1)
   \<and> map_of (BUCKET_2 buffered_state) ''instream/valid.csv'' = Some (demo_frame 2)
   \<and> producer_main demo_lib reliable demo_config buffered_state
       = \<lparr>final_state = \<lparr>BUCKET_1 = [], BUCKET_2 = [], COLLECTION_2 = []\<rparr>,
          outcome = No_new_data\<rparr>"
  by code_simp


subsection \<open>C5: the threshold\<close>

text \<open>
  C5 says that every run publishes a version when the merged train rows reach the batch
  size, and writes the merged buffer back otherwise. An upload that raises is caught, and
  \<^verbatim>\<open>main\<close> does not look at the result (lines 155 to 157, 313 and 314): at the first input
  below the merged train frame has 2 rows, the batch size is 2 and every upload fails, and
  the bucket has no version after the run. At the second input the buffer holds 2 train
  rows, the batch size is 2 and no new row arrives: the run returns early, nothing is
  published and nothing is written back.
\<close>

theorem threshold_counterexample:
  "(case merge_sources (collect failing_uploads source_state) of
      None \<Rightarrow> False
    | Some m \<Rightarrow>
        (case preprocess_data demo_lib (price_last m) of
           Inl e \<Rightarrow> False
         | Inr p \<Rightarrow>
             BATCH_SIZE demo_config
               \<le> int (length (rows (fst (final_frames demo_lib demo_config
                      (collect failing_uploads source_state) p))))))
   \<and> producer_main demo_lib failing_uploads demo_config source_state
       = \<lparr>final_state = \<lparr>BUCKET_1 = [], BUCKET_2 = [], COLLECTION_2 = []\<rparr>,
          outcome = Published 1 False False\<rparr>
   \<and> BATCH_SIZE demo_config \<le> int (length (rows (train1_df (collect reliable full_buffer_state))))
   \<and> producer_main demo_lib reliable demo_config full_buffer_state
       = \<lparr>final_state = \<lparr>BUCKET_1 = [], BUCKET_2 = [], COLLECTION_2 = []\<rparr>,
          outcome = No_new_data\<rparr>"
  by code_simp


text \<open>
  C5, as the code has it: in every producer run in which no store call fails, at least
  one source gives a row and the transform succeeds, the merged train frame is the train
  buffer that the bucket holds followed by the new train rows (the new rows alone when
  the buffer is absent or empty), and likewise for valid. Its row count is the sum of the
  two, and its rows are the rows of the buffer followed by the new ones when both frames
  are well formed and have the same columns. If the merged train frame has at least
  \<^verbatim>\<open>BATCH_SIZE\<close> rows, the merged train and valid frames are written as the next version
  and the two instream files are absent after the run; if it has fewer, the merged
  frames are written to the two instream files and the versioned namespace is unchanged.
\<close>

theorem threshold_decides:
  fixes lib :: transform_lib and env :: producer_env and cfg :: config and s :: producer_state
    and merged_df p :: frame
    and k n :: nat
    and buffer_train buffer_valid new_train new_valid merged_train merged_valid :: frame
    and after :: bucket
  assumes nf: "no_faults env"
    and new: "merge_sources (collect env s) = Some merged_df"
    and pre: "preprocess_data lib (price_last merged_df) = Inr p"
  defines "k \<equiv> train_size_of cfg (length (rows p))"
    and "buffer_train \<equiv> buffer_frame (BUCKET_2 s) ''instream/train.csv''"
    and "buffer_valid \<equiv> buffer_frame (BUCKET_2 s) ''instream/valid.csv''"
    and "new_train \<equiv> p\<lparr>rows := take k (sample_frac_1 lib (rows p))\<rparr>"
    and "new_valid \<equiv> p\<lparr>rows := drop k (sample_frac_1 lib (rows p))\<rparr>"
    and "merged_train \<equiv>
           (if is_empty buffer_train then new_train else pd_concat [buffer_train, new_train])"
    and "merged_valid \<equiv>
           (if is_empty buffer_valid then new_valid else pd_concat [buffer_valid, new_valid])"
    and "after \<equiv> BUCKET_2 (final_state (producer_main lib env cfg s))"
    and "n \<equiv> latest_in (BUCKET_2 s) + 1"
  shows "length (rows merged_train)
           = (if columns buffer_train = [] then 0 else length (rows buffer_train))
             + length (rows new_train)
       \<and> (\<not> is_empty buffer_train \<and> well_formed buffer_train \<and> well_formed new_train
            \<and> columns new_train = columns buffer_train
          \<longrightarrow> rows merged_train = rows buffer_train @ rows new_train)
       \<and> (\<not> is_empty buffer_valid \<and> well_formed buffer_valid \<and> well_formed new_valid
            \<and> columns new_valid = columns buffer_valid
          \<longrightarrow> rows merged_valid = rows buffer_valid @ rows new_valid)
       \<and> (BATCH_SIZE cfg \<le> int (length (rows merged_train)) \<longrightarrow>
            outcome (producer_main lib env cfg s) = Published n True True
          \<and> map_of after (train_path n) = Some merged_train
          \<and> map_of after (valid_path n) = Some merged_valid
          \<and> map_of after ''instream/train.csv'' = None
          \<and> map_of after ''instream/valid.csv'' = None)
       \<and> (int (length (rows merged_train)) < BATCH_SIZE cfg \<longrightarrow>
            outcome (producer_main lib env cfg s) = Buffered
          \<and> map_of after ''instream/train.csv'' = Some merged_train
          \<and> map_of after ''instream/valid.csv'' = Some merged_valid
          \<and> (\<forall>name. is_versioned name \<longrightarrow> map_of after name = map_of (BUCKET_2 s) name))"
proof -
  let ?d = "drained (collect env s)"
  have ff: "final_frames lib cfg (collect env s) p = (merged_train, merged_valid)"
    by (simp add: final_frames_def Let_def collect_buffer[OF nf] merged_train_def
          merged_valid_def new_train_def new_valid_def buffer_train_def buffer_valid_def k_def)
  have r: "producer_main lib env cfg s = store_frames env cfg ?d merged_train merged_valid"
    by (simp add: producer_main_def Let_def new pre ff)
  have g: "get_latest_version env (BUCKET_2 ?d) = latest_in (BUCKET_2 s)"
    using nf latest_in_cong[OF collect_version_set[of env s]]
    by (simp add: get_latest_version_def latest_in_def no_faults_def)
  have u: "\<And>b k f. upload_csv_to_gcs env b k f = (AList.update k f b, True)"
    using nf by (simp add: upload_csv_to_gcs_def no_faults_def)
  note c = collect_instream_cleared[OF nf, of s]
  have len: "length (rows merged_train)
           = (if columns buffer_train = [] then 0 else length (rows buffer_train))
             + length (rows new_train)"
    by (auto simp: merged_train_def is_empty_def rows_pd_concat2)
  have mt: "rows merged_train = rows buffer_train @ rows new_train"
    if "\<not> is_empty buffer_train" "well_formed buffer_train" "well_formed new_train"
      "columns new_train = columns buffer_train"
    using that by (simp add: merged_train_def pd_concat2_same_columns)
  have mv: "rows merged_valid = rows buffer_valid @ rows new_valid"
    if "\<not> is_empty buffer_valid" "well_formed buffer_valid" "well_formed new_valid"
      "columns new_valid = columns buffer_valid"
    using that by (simp add: merged_valid_def pd_concat2_same_columns)
  have st: "(BATCH_SIZE cfg \<le> int (length (rows merged_train)) \<longrightarrow>
            outcome (producer_main lib env cfg s) = Published n True True
          \<and> map_of after (train_path n) = Some merged_train
          \<and> map_of after (valid_path n) = Some merged_valid
          \<and> map_of after ''instream/train.csv'' = None
          \<and> map_of after ''instream/valid.csv'' = None)
       \<and> (int (length (rows merged_train)) < BATCH_SIZE cfg \<longrightarrow>
            outcome (producer_main lib env cfg s) = Buffered
          \<and> map_of after ''instream/train.csv'' = Some merged_train
          \<and> map_of after ''instream/valid.csv'' = Some merged_valid
          \<and> (\<forall>name. is_versioned name \<longrightarrow> map_of after name = map_of (BUCKET_2 s) name))"
    unfolding after_def n_def r store_frames_def Let_def g u
    by (auto simp: update_conv' c collect_map_of dest: versioned_not_instream)
  from len mt mv st show ?thesis by blast
qed

theorem threshold_witness:
  "no_faults reliable
   \<and> map (\<lambda>name. map_option (\<lambda>f. map last (rows f)) (map_of (BUCKET_2 refilled_state) name))
        [''instream/train.csv'', ''instream/valid.csv'']
       = [Some [Num 7, Num 6], Some [Num 5]]
   \<and> outcome (producer_main demo_lib reliable (demo_config\<lparr>BATCH_SIZE := 4\<rparr>) refilled_state)
       = Published 1 True True
   \<and> map (\<lambda>name. map_option (\<lambda>f. map last (rows f))
          (map_of (BUCKET_2 (final_state
             (producer_main demo_lib reliable (demo_config\<lparr>BATCH_SIZE := 4\<rparr>) refilled_state))) name))
        [''versioned/v1/train.csv'', ''versioned/v1/valid.csv'', ''instream/train.csv'',
         ''instream/valid.csv'']
       = [Some [Num 7, Num 6, Num 10, Num 9], Some [Num 5, Num 8], None, None]
   \<and> take 2 (rows (the (map_of (BUCKET_2 (final_state
          (producer_main demo_lib reliable (demo_config\<lparr>BATCH_SIZE := 4\<rparr>) refilled_state)))
          ''versioned/v1/train.csv'')))
       = rows (the (map_of (BUCKET_2 refilled_state) ''instream/train.csv''))
   \<and> outcome (producer_main demo_lib reliable (demo_config\<lparr>BATCH_SIZE := 5\<rparr>) refilled_state)
       = Buffered
   \<and> map (\<lambda>name. map_option (\<lambda>f. map last (rows f))
          (map_of (BUCKET_2 (final_state
             (producer_main demo_lib reliable (demo_config\<lparr>BATCH_SIZE := 5\<rparr>) refilled_state))) name))
        [''instream/train.csv'', ''instream/valid.csv'', ''versioned/v1/train.csv'']
       = [Some [Num 7, Num 6, Num 10, Num 9], Some [Num 5, Num 8], None]"
proof -
  let ?s = refilled_state
  let ?c = "collect reliable ?s"
  let ?m = "the (merge_sources ?c)"
  let ?p = "case preprocess_data demo_lib (price_last ?m) of Inr p \<Rightarrow> p"
  let ?c4 = "demo_config\<lparr>BATCH_SIZE := 4\<rparr>"
  let ?c5 = "demo_config\<lparr>BATCH_SIZE := 5\<rparr>"
  let ?bt = "buffer_frame (BUCKET_2 ?s) ''instream/train.csv''"
  let ?bv = "buffer_frame (BUCKET_2 ?s) ''instream/valid.csv''"
  let ?nt = "\<lambda>cfg. ?p\<lparr>rows := take (train_size_of cfg (length (rows ?p))) (sample_frac_1 demo_lib (rows ?p))\<rparr>"
  let ?nv = "\<lambda>cfg. ?p\<lparr>rows := drop (train_size_of cfg (length (rows ?p))) (sample_frac_1 demo_lib (rows ?p))\<rparr>"
  let ?mt = "\<lambda>cfg. if is_empty ?bt then ?nt cfg else pd_concat [?bt, ?nt cfg]"
  let ?mv = "\<lambda>cfg. if is_empty ?bv then ?nv cfg else pd_concat [?bv, ?nv cfg]"
  let ?a = "\<lambda>cfg. BUCKET_2 (final_state (producer_main demo_lib reliable cfg ?s))"
  let ?n = "latest_in (BUCKET_2 ?s) + 1"
  have nf: "no_faults reliable" by (simp add: no_faults_def reliable_def)
  have new: "merge_sources ?c = Some ?m" by code_simp
  have pre: "preprocess_data demo_lib (price_last ?m) = Inr ?p" by code_simp
  have big: "BATCH_SIZE ?c4 \<le> int (length (rows (?mt ?c4)))" by code_simp
  have small: "int (length (rows (?mt ?c5))) < BATCH_SIZE ?c5" by code_simp
  have wf: "\<not> is_empty ?bt \<and> well_formed ?bt \<and> well_formed (?nt ?c4)
      \<and> columns (?nt ?c4) = columns ?bt"
    by code_simp
  note t4 = threshold_decides[OF nf new pre, where cfg = ?c4]
  note t5 = threshold_decides[OF nf new pre, where cfg = ?c5]
  from t4 big wf
  have p4: "outcome (producer_main demo_lib reliable ?c4 ?s) = Published ?n True True"
    "map_of (?a ?c4) (train_path ?n) = Some (?mt ?c4)"
    "map_of (?a ?c4) (valid_path ?n) = Some (?mv ?c4)"
    "map_of (?a ?c4) ''instream/train.csv'' = None"
    "map_of (?a ?c4) ''instream/valid.csv'' = None"
    "rows (?mt ?c4) = rows ?bt @ rows (?nt ?c4)"
    by blast+
  from t5 small
  have p5: "outcome (producer_main demo_lib reliable ?c5 ?s) = Buffered"
    "map_of (?a ?c5) ''instream/train.csv'' = Some (?mt ?c5)"
    "map_of (?a ?c5) ''instream/valid.csv'' = Some (?mv ?c5)"
    "\<forall>name. is_versioned name \<longrightarrow> map_of (?a ?c5) name = map_of (BUCKET_2 ?s) name"
    by blast+
  have l: "?n = 1" by code_simp
  have t: "train_path 1 = ''versioned/v1/train.csv''" "valid_path 1 = ''versioned/v1/valid.csv''"
    by code_simp+
  have v: "is_versioned ''versioned/v1/train.csv''" by code_simp
  have b: "map_of (BUCKET_2 ?s) ''versioned/v1/train.csv'' = None" by code_simp
  have e: "map last (rows (?mt ?c4)) = [Num 7, Num 6, Num 10, Num 9]"
    "map last (rows (?mv ?c4)) = [Num 5, Num 8]"
    "map last (rows (?mt ?c5)) = [Num 7, Num 6, Num 10, Num 9]"
    "map last (rows (?mv ?c5)) = [Num 5, Num 8]"
    by code_simp+
  have s: "map (\<lambda>name. map_option (\<lambda>f. map last (rows f)) (map_of (BUCKET_2 refilled_state) name))
        [''instream/train.csv'', ''instream/valid.csv'']
       = [Some [Num 7, Num 6], Some [Num 5]]"
    by code_simp
  have bt: "rows ?bt = rows (the (map_of (BUCKET_2 ?s) ''instream/train.csv''))"
    "length (rows ?bt) = 2"
    by code_simp+
  have c1: "outcome (producer_main demo_lib reliable ?c4 ?s) = Published 1 True True"
    using p4(1) unfolding l .
  have c2: "map (\<lambda>name. map_option (\<lambda>f. map last (rows f)) (map_of (?a ?c4) name))
        [''versioned/v1/train.csv'', ''versioned/v1/valid.csv'', ''instream/train.csv'',
         ''instream/valid.csv'']
       = [Some [Num 7, Num 6, Num 10, Num 9], Some [Num 5, Num 8], None, None]"
    using p4(2-5) unfolding l t by (simp only: list.map option.map e)
  have c3: "take 2 (rows (the (map_of (?a ?c4) ''versioned/v1/train.csv'')))
       = rows (the (map_of (BUCKET_2 ?s) ''instream/train.csv''))"
    using p4(2) unfolding l t by (simp only: option.sel p4(6) bt(1)[symmetric] take_all_iff
        append_eq_conv_conj bt(2) take_append diff_self_eq_0 take_0 append_Nil2 order_refl)
  have c5: "map (\<lambda>name. map_option (\<lambda>f. map last (rows f)) (map_of (?a ?c5) name))
        [''instream/train.csv'', ''instream/valid.csv'', ''versioned/v1/train.csv'']
       = [Some [Num 7, Num 6, Num 10, Num 9], Some [Num 5, Num 8], None]"
    using p5(2,3) p5(4)[rule_format, OF v] by (simp only: list.map option.map e b)
  from nf s c1 c2 c3 p5(1) c5 show ?thesis by (intro conjI)
qed


subsection \<open>C7: a record without the target\<close>






subsection \<open>C8: a missing categorical value\<close>

text \<open>
  C8 says that a missing categorical value is replaced by the string \<^verbatim>\<open>unknown\<close> before
  it is hashed. The source calls \<^verbatim>\<open>astype(str)\<close> first and \<^verbatim>\<open>fillna("unknown")\<close> after it
  (line 83): the missing value has become the string \<^verbatim>\<open>nan\<close> by then and nothing is left
  to fill. At the input below the second document has no street, and the string that is
  hashed for it is \<^verbatim>\<open>nan\<close>.
\<close>

theorem missing_street_hashed_as_nan:
  "map_of (demo_document None (Some 6)) ''street'' = None
   \<and> map (\<lambda>r. hashed_string demo_lib
            (cell_at (frame_of_documents [demo_document (Some ''Main St'') (Some 5),
                                            demo_document None (Some 6)]) r ''street''))
        (rows (frame_of_documents [demo_document (Some ''Main St'') (Some 5),
                                     demo_document None (Some 6)]))
       = [''Main St'', ''nan'']"
  by code_simp


end
